theory Spec2Isabelle
  imports Main "HOL-Library.Word" "HOL-Library.Code_Target_Nat"
begin

section \<open>The asset transformation core: data model\<close>

text \<open>
  A shallow embedding of \<^verbatim>\<open>packages/core/core/src/TransformerRunner.js\<close> and of
  \<^verbatim>\<open>packages/core/core/src/requests/AssetRequest.js\<close>.

  Values the runner never inspects are opaque: an AST and a transformer config are
  handles, an environment and a source map are strings. A plugin object is known by its
  handle (a number); \<open>plugins\<close> of the collaborators gives the hooks behind a handle, so
  that JavaScript's \<^verbatim>\<open>===\<close> on plugin objects is equality of handles.
\<close>

type_synonym FilePath = string
type_synonym byte = "8 word"
type_synonym AST = nat
type_synonym Config = nat
type_synonym Env = string
type_synonym SourceMap = string

text \<open>\<^verbatim>\<open>Blob\<close>: a string, a \<^verbatim>\<open>Buffer\<close> or a readable stream on a file.\<close>

datatype Blob = Text string | Buffer "byte list" | ReadStream FilePath

text \<open>A connected file; its \<^verbatim>\<open>hash\<close> may be absent.\<close>

record File =
  file_filePath :: FilePath
  file_hash :: "string option"

record Stats =
  time :: int
  size_bytes :: nat

text \<open>
  \<^verbatim>\<open>InternalAsset\<close>. An absent or empty \<^verbatim>\<open>hash\<close> is the empty string (both are
  falsy in the one place the runner tests it).
\<close>

record InternalAsset =
  idBase :: string
  filePath :: FilePath
  type :: string
  ast :: "AST option"
  content :: Blob
  hash :: string
  map_src :: "SourceMap option"
  env :: Env
  stats :: Stats
  sideEffects :: "bool option"
  dependencies :: "string list"
  connectedFiles :: "File list"
  isIsolated :: bool
  meta :: string

record TransformerResult =
  r_type :: string
  r_content :: Blob
  r_ast :: "AST option"
  r_map :: "SourceMap option"
  r_dependencies :: "string list"
  r_connectedFiles :: "File list"
  r_env :: Env
  r_isIsolated :: bool
  r_meta :: string

text \<open>What a transform hook may return: a plain result, or a \<^verbatim>\<open>MutableAsset\<close> view.\<close>

datatype TransformOutput = Plain TransformerResult | View InternalAsset

record GenerateOutput =
  g_code :: Blob
  g_map :: "SourceMap option"

record CacheEntry =
  ce_filePath :: FilePath
  ce_env :: Env
  ce_hash :: string
  assets :: "InternalAsset list"
  initialAssets :: "InternalAsset list option"

text \<open>The request \<^verbatim>\<open>transform\<close> receives: \<^verbatim>\<open>{filePath, env, code?, sideEffects?}\<close>.\<close>

record AssetRequest =
  req_filePath :: FilePath
  req_env :: Env
  code :: "string option"
  req_sideEffects :: "bool option"

text \<open>\<^verbatim>\<open>ParcelOptions\<close>: \<^verbatim>\<open>cache\<close> may be absent, true or false.\<close>

record ParcelOptions =
  opt_cache :: "bool option"
  cacheDir :: FilePath

subsection \<open>Errors, outcomes and the event log\<close>

datatype error =
    MissingGenerate
  | TypeError string
  | IOError FilePath
  | PluginError string

text \<open>
  \<open>MissingGenerate\<close> is
  \<^verbatim>\<open>new Error('Asset has an AST but no generate method is available on the transform')\<close>.
  A promise is fulfilled (\<open>Returned\<close>), rejected (\<open>Thrown\<close>), or the recursion ran out
  of fuel (\<open>Timeout\<close>).
\<close>

datatype 'a outcome = Returned 'a | Thrown error | Timeout

datatype hook = GetConfig | CanReuseAST | Parse | TransformHook | Generate | PostProcess

text \<open>An invalidation edge of the request graph.\<close>

datatype edge = FileUpdate FilePath | FileDelete FilePath | FileCreate string | Startup

text \<open>
  The calls the runner and the request driver make to their collaborators, in order.
  \<open>EvRunPipeline\<close> records an entry into \<^verbatim>\<open>runPipeline\<close> with its \<^verbatim>\<open>pipeline\<close>
  argument (the call itself: the source reports nothing there). \<open>EvInvalidate\<close> is a call of \<^verbatim>\<open>api.invalidateOn...\<close> by the asset request;
  \<open>EvRunRequest id type edges\<close> is \<^verbatim>\<open>api.runRequest\<close> on a child request, with the edges
  the child's \<^verbatim>\<open>run\<close> registers when the graph executes it.
\<close>

datatype event =
    EvReport FilePath
  | EvCacheGet string
  | EvCacheSet string
  | EvGetTransformers FilePath
  | EvHook nat hook
  | EvCommit InternalAsset
  | EvRunPipeline "nat list"
  | EvInvalidate edge
  | EvRunRequest string string "edge list"

type_synonym 'a M = "'a outcome \<times> event list"

definition ret :: "'a \<Rightarrow> 'a M" where
  "ret x = (Returned x, [])"

definition throw :: "error \<Rightarrow> 'a M" where
  "throw e = (Thrown e, [])"

definition emit :: "event \<Rightarrow> unit M" where
  "emit ev = (Returned (), [ev])"

definition lift :: "error + 'a \<Rightarrow> 'a M" where
  "lift r = (case r of Inl e \<Rightarrow> throw e | Inr x \<Rightarrow> ret x)"

text \<open>\<^verbatim>\<open>await\<close>: a rejection ends the caller, with the events so far.\<close>

definition bindM :: "'a M \<Rightarrow> ('a \<Rightarrow> 'b M) \<Rightarrow> 'b M" where
  "bindM m f =
     (case m of
        (Returned x, es) \<Rightarrow> (case f x of (r, es') \<Rightarrow> (r, es @ es'))
      | (Thrown e, es) \<Rightarrow> (Thrown e, es)
      | (Timeout, es) \<Rightarrow> (Timeout, es))"

definition isHook :: "event \<Rightarrow> bool" where
  "isHook ev = (case ev of EvHook t h \<Rightarrow> True | _ \<Rightarrow> False)"

definition isCacheGet :: "event \<Rightarrow> bool" where
  "isCacheGet ev = (case ev of EvCacheGet k \<Rightarrow> True | _ \<Rightarrow> False)"

subsection \<open>Plugins and collaborators\<close>

text \<open>
  A transformer implements any subset of its hooks; \<^verbatim>\<open>transform\<close> is always there.
  A hook is a function of what the runner hands it, to what it returns or throws (\<open>Inl\<close>).
  A hook is handed the asset itself where the source wraps it in a \<^verbatim>\<open>MutableAsset\<close>
  view; what a plugin writes through the view shows in the model where the plugin returns
  the view (a \<open>View\<close> among the results of \<^verbatim>\<open>transform\<close>). \<^verbatim>\<open>getConfig\<close> may return no
  config, \<^verbatim>\<open>parse\<close> no AST, and \<^verbatim>\<open>postProcess\<close> \<^verbatim>\<open>null\<close> instead of a list (\<open>None\<close>).
\<close>

record Transformer =
  getConfig :: "(InternalAsset \<Rightarrow> error + Config option) option"
  canReuseAST :: "(AST \<Rightarrow> bool) option"
  parse :: "(InternalAsset \<Rightarrow> Config option \<Rightarrow> error + AST option) option"
  transform_hook :: "InternalAsset \<Rightarrow> Config option \<Rightarrow> error + TransformOutput list"
  generate :: "(InternalAsset \<Rightarrow> Config option \<Rightarrow> error + GenerateOutput) option"
  postProcess ::
    "(InternalAsset list \<Rightarrow> Config option \<Rightarrow> error + TransformerResult list option) option"

text \<open>
  What the runner imports and does not define: the config's \<^verbatim>\<open>getTransformers\<close>, the file
  system (a file is the chunks its read stream delivers), \<^verbatim>\<open>md5\<close>, the UTF-8 encoding
  behind \<^verbatim>\<open>Buffer.from\<close> and \<^verbatim>\<open>md5FromString\<close>, \<^verbatim>\<open>JSON.stringify\<close> on an environment,
  \<^verbatim>\<open>path.extname\<close>, and of \<^verbatim>\<open>./Asset\<close> \<^verbatim>\<open>createChildAsset\<close>, \<^verbatim>\<open>commit\<close> and the
  values its constructor gives the fields it is not passed (\<open>assetDefaults\<close>).
\<close>

record World =
  plugins :: "nat \<Rightarrow> Transformer"
  getTransformers :: "FilePath \<Rightarrow> error + nat list"
  readFile :: "FilePath \<Rightarrow> byte list list option"
  md5 :: "byte list \<Rightarrow> string"
  utf8 :: "string \<Rightarrow> byte list"
  stringify :: "Env \<Rightarrow> string"
  extname :: "FilePath \<Rightarrow> string"
  createChildAsset :: "InternalAsset \<Rightarrow> TransformerResult \<Rightarrow> InternalAsset"
  commit :: "InternalAsset \<Rightarrow> error option"
  assetDefaults :: InternalAsset

definition md5FromString :: "World \<Rightarrow> string \<Rightarrow> string" where
  "md5FromString w s = md5 w (utf8 w s)"

definition md5FromFilePath :: "World \<Rightarrow> FilePath \<Rightarrow> string M" where
  "md5FromFilePath w p =
     (case readFile w p of
        None \<Rightarrow> throw (IOError p)
      | Some chunks \<Rightarrow> ret (md5 w (concat chunks)))"

section \<open>summarizeRequest\<close>

definition BUFFER_LIMIT :: nat where
  "BUFFER_LIMIT = 5000000"

text \<open>
  The \<^verbatim>\<open>TapStream\<close> callback, on the pair of the variables \<^verbatim>\<open>content\<close> and \<^verbatim>\<open>size\<close>
  it updates.
\<close>

fun tap :: "FilePath \<Rightarrow> Blob \<times> nat \<Rightarrow> byte list \<Rightarrow> Blob \<times> nat" where
  "tap p (c, sz) buf =
     (let sz' = sz + length buf in
      case c of
        Buffer bs \<Rightarrow>
          if sz' > BUFFER_LIMIT then (ReadStream p, sz') else (Buffer (bs @ buf), sz')
      | _ \<Rightarrow> (c, sz'))"

record Summary =
  s_content :: Blob
  s_hash :: string
  s_size :: nat

definition summarizeRequest :: "World \<Rightarrow> AssetRequest \<Rightarrow> Summary M" where
  "summarizeRequest w req =
     (case code req of
        None \<Rightarrow>
          (case readFile w (req_filePath req) of
             None \<Rightarrow> throw (IOError (req_filePath req))
           | Some chunks \<Rightarrow>
               (case foldl (tap (req_filePath req)) (Buffer [], 0) chunks of
                  (c, sz) \<Rightarrow>
                    ret \<lparr>s_content = c, s_hash = md5 w (concat chunks), s_size = sz\<rparr>))
      | Some c \<Rightarrow>
          ret \<lparr>s_content = Text c, s_hash = md5FromString w c,
               s_size = length (utf8 w c)\<rparr>)"

section \<open>The cache checks\<close>

text \<open>
  \<^verbatim>\<open>Promise.all(xs.map(f))\<close>: the results in order, or the first rejection.
\<close>

fun mapM :: "('a \<Rightarrow> 'b M) \<Rightarrow> 'a list \<Rightarrow> 'b list M" where
  "mapM f [] = ret []"
| "mapM f (x # xs) = bindM (f x) (\<lambda>y. bindM (mapM f xs) (\<lambda>ys. ret (y # ys)))"

definition checkConnectedFiles :: "World \<Rightarrow> File list \<Rightarrow> bool M" where
  "checkConnectedFiles w files =
     bindM (mapM (\<lambda>file. md5FromFilePath w (file_filePath file)) files)
       (\<lambda>hashes. ret (list_all (\<lambda>(file, h). file_hash file = Some h) (zip files hashes)))"

definition checkCachedAssets :: "World \<Rightarrow> InternalAsset list \<Rightarrow> bool M" where
  "checkCachedAssets w as =
     bindM (mapM (\<lambda>asset. checkConnectedFiles w (connectedFiles asset)) as)
       (\<lambda>results. ret (list_all (\<lambda>b. b) results))"

definition reqCacheKey :: "World \<Rightarrow> AssetRequest \<Rightarrow> string" where
  "reqCacheKey w req = md5FromString w (req_filePath req @ stringify w (req_env req))"

section \<open>runTransform\<close>

definition normalizeAssets :: "TransformOutput list \<Rightarrow> TransformerResult list" where
  "normalizeAssets outs =
     map (\<lambda>result. case result of
            Plain r \<Rightarrow> r
          | View a \<Rightarrow>
              \<lparr>r_type = type a, r_content = content a, r_ast = ast a, r_map = map_src a,
               r_dependencies = dependencies a, r_connectedFiles = connectedFiles a,
               r_env = env a, r_isIsolated = isIsolated a, r_meta = meta a\<rparr>) outs"

text \<open>
  The closures \<^verbatim>\<open>generate\<close> and \<^verbatim>\<open>postProcess\<close> that \<^verbatim>\<open>runTransform\<close> returns are the
  variables they capture: the transformer and its config, and for \<^verbatim>\<open>postProcess\<close> the
  input asset.
\<close>

type_synonym GenerateFunc = "nat \<times> Config option"
type_synonym PostProcessFunc = "nat \<times> Config option \<times> InternalAsset"

definition callGenerate :: "World \<Rightarrow> GenerateFunc \<Rightarrow> InternalAsset \<Rightarrow> GenerateOutput M" where
  "callGenerate w g a =
     (case g of (t, config) \<Rightarrow>
        (case generate (plugins w t) of
           Some gen \<Rightarrow> bindM (emit (EvHook t Generate)) (\<lambda>_. lift (gen a config))
         | None \<Rightarrow> throw MissingGenerate))"

definition callPostProcess ::
  "World \<Rightarrow> PostProcessFunc \<Rightarrow> InternalAsset list \<Rightarrow> InternalAsset list option M" where
  "callPostProcess w pp as =
     (case pp of (t, config, inp) \<Rightarrow>
        (case postProcess (plugins w t) of
           Some post \<Rightarrow>
             bindM (emit (EvHook t PostProcess)) (\<lambda>_.
             bindM (lift (post as config)) (\<lambda>res.
               case res of
                 None \<Rightarrow> throw (TypeError ''Cannot read property map of null'')
               | Some rs \<Rightarrow> ret (Some (map (createChildAsset w inp) rs))))
         | None \<Rightarrow> ret None))"

text \<open>Load config for the transformer.\<close>

definition loadConfig :: "World \<Rightarrow> nat \<Rightarrow> InternalAsset \<Rightarrow> Config option M" where
  "loadConfig w t inp =
     (case getConfig (plugins w t) of
        Some gc \<Rightarrow> bindM (emit (EvHook t GetConfig)) (\<lambda>_. lift (gc inp))
      | None \<Rightarrow> ret None)"

text \<open>
  \<^verbatim>\<open>!transformer.canReuseAST || !transformer.canReuseAST({ast, options})\<close>: the hook is
  called only when the transformer has it.
\<close>

definition cannotReuse :: "World \<Rightarrow> nat \<Rightarrow> AST \<Rightarrow> bool M" where
  "cannotReuse w t a =
     (case canReuseAST (plugins w t) of
        None \<Rightarrow> ret True
      | Some can \<Rightarrow> bindM (emit (EvHook t CanReuseAST)) (\<lambda>_. ret (\<not> can a)))"

text \<open>
  If an ast exists on the input, but we cannot reuse it, use the previous transform to
  generate code that we can re-parse.
\<close>

definition regenerate ::
  "World \<Rightarrow> nat \<Rightarrow> InternalAsset \<Rightarrow> GenerateFunc option \<Rightarrow> InternalAsset M" where
  "regenerate w t inp previousGenerate =
     (case ast inp of
        None \<Rightarrow> ret inp
      | Some a \<Rightarrow>
          bindM (cannotReuse w t a) (\<lambda>cannot.
            if cannot then
              (case previousGenerate of
                 None \<Rightarrow> ret inp
               | Some g \<Rightarrow>
                   bindM (callGenerate w g inp) (\<lambda>output.
                     ret (inp\<lparr>content := g_code output, map_src := g_map output,
                              ast := None\<rparr>)))
            else ret inp))"

text \<open>Parse if there is no AST available from a previous transform.\<close>

definition parseIfNeeded ::
  "World \<Rightarrow> nat \<Rightarrow> Config option \<Rightarrow> InternalAsset \<Rightarrow> InternalAsset M" where
  "parseIfNeeded w t config inp =
     (case ast inp of
        Some a \<Rightarrow> ret inp
      | None \<Rightarrow>
          (case parse (plugins w t) of
             None \<Rightarrow> ret inp
           | Some p \<Rightarrow>
               bindM (emit (EvHook t Parse)) (\<lambda>_.
               bindM (lift (p inp config)) (\<lambda>a. ret (inp\<lparr>ast := a\<rparr>)))))"

record TransformRun =
  results :: "TransformerResult list"
  tr_generate :: GenerateFunc
  tr_postProcess :: PostProcessFunc
  tr_input :: InternalAsset

text \<open>
  Transform: the call of the \<^verbatim>\<open>transform\<close> hook, the normalisation of what it returns,
  and the two closures.
\<close>

definition callTransform ::
  "World \<Rightarrow> nat \<Rightarrow> Config option \<Rightarrow> InternalAsset \<Rightarrow> TransformRun M" where
  "callTransform w t config inp =
     bindM (emit (EvHook t TransformHook)) (\<lambda>_.
     bindM (lift (transform_hook (plugins w t) inp config)) (\<lambda>outs.
       ret \<lparr>results = normalizeAssets outs, tr_generate = (t, config),
            tr_postProcess = (t, config, inp), tr_input = inp\<rparr>))"

text \<open>
  \<^verbatim>\<open>runTransform(input, transformer, previousGenerate)\<close>. The transformer is
  \<^verbatim>\<open>pipeline[0]\<close>, \<^verbatim>\<open>undefined\<close> (\<open>None\<close>) when the pipeline is empty: reading its
  \<^verbatim>\<open>getConfig\<close> then throws a TypeError. \<open>tr_input\<close> is the input asset as the
  assignments to its \<^verbatim>\<open>content\<close>, \<^verbatim>\<open>map\<close> and \<^verbatim>\<open>ast\<close> leave it.
\<close>

definition runTransform ::
  "World \<Rightarrow> InternalAsset \<Rightarrow> nat option \<Rightarrow> GenerateFunc option \<Rightarrow> TransformRun M" where
  "runTransform w inp transformer previousGenerate =
     (case transformer of
        None \<Rightarrow> throw (TypeError ''Cannot read property getConfig of undefined'')
      | Some t \<Rightarrow>
          bindM (loadConfig w t inp) (\<lambda>config.
          bindM (regenerate w t inp previousGenerate) (\<lambda>inp1.
          bindM (parseIfNeeded w t config inp1) (\<lambda>inp2.
            callTransform w t config inp2))))"

section \<open>runPipeline\<close>

text \<open>
  Plugins are cached, so a shallow comparison: the same length and the same handle at
  every index. (The first test of the source, \<^verbatim>\<open>a === b\<close> on the arrays, holds only when
  the rest would hold too.)
\<close>

definition isEqualPipeline :: "nat list \<Rightarrow> nat list \<Rightarrow> bool" where
  "isEqualPipeline a b =
     (if length a \<noteq> length b then False else list_all (\<lambda>(p, q). p = q) (zip a b))"

definition finalize :: "World \<Rightarrow> InternalAsset \<Rightarrow> GenerateFunc \<Rightarrow> InternalAsset M" where
  "finalize w asset g =
     (case ast asset of
        Some a \<Rightarrow>
          bindM (callGenerate w g asset) (\<lambda>result.
            ret (asset\<lparr>content := g_code result, map_src := g_map result\<rparr>))
      | None \<Rightarrow> ret asset)"

text \<open>
  \<^verbatim>\<open>input.filePath.slice(0, -path.extname(input.filePath).length) + '.' + result.type\<close>;
  \<^verbatim>\<open>slice(0, -0)\<close> is the empty string.
\<close>

definition nextFilePath :: "World \<Rightarrow> InternalAsset \<Rightarrow> string \<Rightarrow> FilePath" where
  "nextFilePath w inp ty =
     (let n = length (extname w (filePath inp)) in
      (if n = 0 then [] else take (length (filePath inp) - n) (filePath inp)) @ ''.'' @ ty)"

record PipelineOpts =
  input :: InternalAsset
  originalPipeline :: "nat list option"
  pipeline :: "nat list"
  cacheEntry :: "CacheEntry option"
  previousGenerate :: "GenerateFunc option"

record PipelineResult =
  pr_assets :: "InternalAsset list"
  pr_initialAssets :: "InternalAsset list option"

text \<open>The variables of one \<^verbatim>\<open>runPipeline\<close> call that its loop over the results reads.\<close>

record Frame =
  fr_input :: InternalAsset
  fr_inputType :: string
  fr_pipeline :: "nat list"
  fr_originalPipeline :: "nat list"
  fr_cacheEntry :: "CacheEntry option"
  fr_generate :: GenerateFunc

text \<open>Check if any of the cached assets match the result.\<close>

definition cachedAssetsFor :: "CacheEntry \<Rightarrow> InternalAsset \<Rightarrow> InternalAsset list" where
  "cachedAssetsFor ce asset =
     filter (\<lambda>child. hash child \<noteq> [] \<and> hash child = hash asset)
       (case initialAssets ce of Some ia \<Rightarrow> ia | None \<Rightarrow> assets ce)"

definition tryCache :: "World \<Rightarrow> Frame \<Rightarrow> InternalAsset \<Rightarrow> InternalAsset list option M" where
  "tryCache w fr asset =
     (case fr_cacheEntry fr of
        None \<Rightarrow> ret None
      | Some ce \<Rightarrow>
          (let cachedAssets = cachedAssetsFor ce asset in
           if length cachedAssets > 0 then
             bindM (checkCachedAssets w cachedAssets) (\<lambda>ok.
               ret (if ok then Some cachedAssets else None))
           else ret None))"

text \<open>
  If the generated asset has a different type from the input, find the next pipeline.
\<close>

definition nextPipelineFor :: "World \<Rightarrow> Frame \<Rightarrow> TransformerResult \<Rightarrow> nat list M" where
  "nextPipelineFor w fr result =
     (if r_type result \<noteq> fr_inputType fr then
        bindM (emit (EvGetTransformers (nextFilePath w (fr_input fr) (r_type result)))) (\<lambda>_.
          lift (getTransformers w (nextFilePath w (fr_input fr) (r_type result))))
      else ret (fr_originalPipeline fr))"

definition headOf :: "nat list \<Rightarrow> nat option" where
  "headOf p = (case p of [] \<Rightarrow> None | t # _ \<Rightarrow> Some t)"

text \<open>
  \<^verbatim>\<open>runPipeline\<close>; its loop \<^verbatim>\<open>for (let result of results)\<close> is \<open>runChildren\<close>, with the
  \<^verbatim>\<open>assets\<close> collected so far, and one turn of the loop is \<open>runChild\<close>, which gives the
  assets that turn adds to \<^verbatim>\<open>assets\<close>. A pipeline jump can come back to a pipeline it
  left, so the recursion has fuel: \<open>runPipeline\<close> with fuel \<open>Suc n\<close> gives \<open>n\<close> to the
  calls it makes for its children.
\<close>

fun runPipeline :: "World \<Rightarrow> nat \<Rightarrow> PipelineOpts \<Rightarrow> PipelineResult M"
  and runChildren ::
    "World \<Rightarrow> nat \<Rightarrow> Frame \<Rightarrow> TransformerResult list \<Rightarrow> InternalAsset list \<Rightarrow> InternalAsset list M"
  and runChild :: "World \<Rightarrow> nat \<Rightarrow> Frame \<Rightarrow> TransformerResult \<Rightarrow> InternalAsset list M"
where
  "runPipeline w 0 po = (Timeout, [])"
| "runPipeline w (Suc n) po =
     bindM (emit (EvRunPipeline (pipeline po))) (\<lambda>_.
     bindM (runTransform w (input po) (headOf (pipeline po)) (previousGenerate po)) (\<lambda>rt.
     bindM (runChildren w n
              \<lparr>fr_input = tr_input rt, fr_inputType = type (input po),
               fr_pipeline = pipeline po,
               fr_originalPipeline =
                 (case originalPipeline po of None \<Rightarrow> pipeline po | Some op \<Rightarrow> op),
               fr_cacheEntry = cacheEntry po, fr_generate = tr_generate rt\<rparr>
              (results rt) []) (\<lambda>as.
     bindM (callPostProcess w (tr_postProcess rt) as) (\<lambda>finalAssets.
       ret \<lparr>pr_assets = (case finalAssets of Some fa \<Rightarrow> fa | None \<Rightarrow> as),
            pr_initialAssets = (case finalAssets of Some fa \<Rightarrow> Some as | None \<Rightarrow> None)\<rparr>))))"
| "runChildren w n fr [] as = ret as"
| "runChildren w n fr (result # rest) as =
     bindM (runChild w n fr result) (\<lambda>new. runChildren w n fr rest (as @ new))"
| "runChild w n fr result =
     bindM (tryCache w fr (createChildAsset w (fr_input fr) result)) (\<lambda>hit.
       case hit of
         Some cachedAssets \<Rightarrow> ret cachedAssets
       | None \<Rightarrow>
           bindM (nextPipelineFor w fr result) (\<lambda>nextPipeline.
             if isEqualPipeline (fr_originalPipeline fr) nextPipeline then
               (if length (fr_pipeline fr) = 1 then
                  bindM (finalize w (createChildAsset w (fr_input fr) result) (fr_generate fr))
                    (\<lambda>a. ret [a])
                else
                  bindM (runPipeline w n
                           \<lparr>input = createChildAsset w (fr_input fr) result,
                            originalPipeline = Some (fr_originalPipeline fr),
                            pipeline = tl (fr_pipeline fr),
                            cacheEntry = None,
                            previousGenerate = Some (fr_generate fr)\<rparr>)
                    (\<lambda>nextPipelineResult. ret (pr_assets nextPipelineResult)))
             else
               bindM (runPipeline w n
                        \<lparr>input = createChildAsset w (fr_input fr) result,
                         originalPipeline = None,
                         pipeline = nextPipeline,
                         cacheEntry = None,
                         previousGenerate = Some (fr_generate fr)\<rparr>)
                 (\<lambda>nextPipelineResult. ret (pr_assets nextPipelineResult))))"

section \<open>transform\<close>

text \<open>
  \<^verbatim>\<open>new InternalAsset({idBase, filePath, type, cache, ast, content, hash, env, stats,
  sideEffects})\<close>. \<^verbatim>\<open>req.code ? hash : req.filePath\<close>: an empty string is falsy.
\<close>

definition newInput :: "World \<Rightarrow> AssetRequest \<Rightarrow> Summary \<Rightarrow> InternalAsset" where
  "newInput w req s =
     (assetDefaults w)
       \<lparr>idBase := (case code req of
                     None \<Rightarrow> req_filePath req
                   | Some c \<Rightarrow> if c = [] then req_filePath req else s_hash s),
        filePath := req_filePath req,
        type := drop 1 (extname w (req_filePath req)),
        ast := None,
        content := s_content s,
        hash := s_hash s,
        env := req_env req,
        stats := \<lparr>time = 0, size_bytes = s_size s\<rparr>,
        sideEffects := req_sideEffects req\<rparr>"

text \<open>
  \<^verbatim>\<open>Promise.all(unique([...]).map(asset => asset.commit()))\<close>: every commit is started,
  and the first that fails rejects the whole. (\<^verbatim>\<open>unique\<close> removes repeated objects; the
  caller below removes repeated values.)
\<close>

definition commitAll :: "World \<Rightarrow> InternalAsset list \<Rightarrow> unit M" where
  "commitAll w as =
     bindM (Returned (), map EvCommit as) (\<lambda>_.
       case List.map_filter (commit w) as of [] \<Rightarrow> ret () | e # _ \<Rightarrow> throw e)"

text \<open>
  What \<^verbatim>\<open>transform\<close> returns: the entry it found in the cache (the early
  \<^verbatim>\<open>return cacheEntry\<close>), or the entry it built and is about to store.
\<close>

datatype served = FromCache CacheEntry | Fresh CacheEntry

text \<open>From \<^verbatim>\<open>let input = new InternalAsset\<close> to the commits.\<close>

definition transformFresh ::
  "World \<Rightarrow> nat \<Rightarrow> AssetRequest \<Rightarrow> Summary \<Rightarrow> CacheEntry option \<Rightarrow> served M" where
  "transformFresh w fuel req s ce =
     bindM (emit (EvGetTransformers (req_filePath req))) (\<lambda>_.
     bindM (lift (getTransformers w (req_filePath req))) (\<lambda>pl.
     bindM (runPipeline w fuel
              \<lparr>input = newInput w req s, originalPipeline = None, pipeline = pl,
               cacheEntry = ce, previousGenerate = None\<rparr>) (\<lambda>res.
     bindM (commitAll w
              (remdups (pr_assets res @
                 (case pr_initialAssets res of None \<Rightarrow> [] | Some ia \<Rightarrow> ia)))) (\<lambda>_.
       ret (Fresh \<lparr>ce_filePath = req_filePath req, ce_env = req_env req,
                   ce_hash = s_hash s, assets = pr_assets res,
                   initialAssets = pr_initialAssets res\<rparr>)))))"

text \<open>Up to the decision between the cached entry and a fresh run.\<close>

definition transformServe ::
  "World \<Rightarrow> ParcelOptions \<Rightarrow> nat \<Rightarrow> AssetRequest \<Rightarrow> (string \<rightharpoonup> CacheEntry) \<Rightarrow> served M" where
  "transformServe w opts fuel req cache =
     bindM (emit (EvReport (req_filePath req))) (\<lambda>_.
     bindM (if opt_cache opts \<noteq> Some False \<and> code req = None then
              bindM (emit (EvCacheGet (reqCacheKey w req))) (\<lambda>_.
                ret (cache (reqCacheKey w req)))
            else ret None) (\<lambda>ce.
     bindM (summarizeRequest w req) (\<lambda>s.
       case ce of
         None \<Rightarrow> transformFresh w fuel req s ce
       | Some e \<Rightarrow>
           if ce_hash e = s_hash s then
             bindM (checkCachedAssets w (assets e)) (\<lambda>ok.
               if ok then ret (FromCache e) else transformFresh w fuel req s ce)
           else transformFresh w fuel req s ce)))"

text \<open>
  \<^verbatim>\<open>transform(req)\<close> on a persistent cache (the map from keys to entries behind
  \<^verbatim>\<open>cache.get\<close> and \<^verbatim>\<open>cache.set\<close>, neither of which fails here): the outcome with its
  events, and the cache after. \<^verbatim>\<open>cache.set\<close> is the last statement of the fresh run, under
  no condition.
\<close>

definition transform ::
  "World \<Rightarrow> ParcelOptions \<Rightarrow> nat \<Rightarrow> AssetRequest \<Rightarrow> (string \<rightharpoonup> CacheEntry)
     \<Rightarrow> CacheEntry M \<times> (string \<rightharpoonup> CacheEntry)" where
  "transform w opts fuel req cache =
     (case transformServe w opts fuel req cache of
        (Returned (FromCache e), es) \<Rightarrow> ((Returned e, es), cache)
      | (Returned (Fresh e), es) \<Rightarrow>
          ((Returned e, es @ [EvCacheSet (reqCacheKey w req)]),
           cache(reqCacheKey w req \<mapsto> e))
      | (Thrown x, es) \<Rightarrow> ((Thrown x, es), cache)
      | (Timeout, es) \<Rightarrow> ((Timeout, es), cache))"

section \<open>The asset request\<close>

text \<open>
  \<^verbatim>\<open>requests/AssetRequest.js\<close>. An asset as the worker farm returns it, with the two
  fields \<^verbatim>\<open>run\<close> reads: \<^verbatim>\<open>stats\<close>, and \<^verbatim>\<open>includedFiles\<close> (a \<^verbatim>\<open>Map\<close>, in insertion
  order).
\<close>

record Asset =
  a_stats :: Stats
  includedFiles :: "(FilePath \<times> File) list"

record ConfigRequestResult =
  resolvedPath :: "FilePath option"
  cr_includedFiles :: "FilePath list"
  watchGlob :: "string option"
  shouldInvalidateOnStartup :: bool
  devDeps :: "(string \<times> string) list"

record ConfigRequest =
  cr_request :: string
  cr_result :: ConfigRequestResult

record AssetRequestInput = AssetRequest +
  optionsRef :: nat

record FarmResult =
  fa_assets :: "Asset list"
  configRequests :: "ConfigRequest list"

text \<open>
  What \<^verbatim>\<open>run\<close> is handed: \<^verbatim>\<open>options\<close> (\<^verbatim>\<open>inputFS.realpath\<close>, \<^verbatim>\<open>lockFile\<close>), the
  \<^verbatim>\<open>api\<close> of the request graph (the result of the config request, and whether
  \<^verbatim>\<open>runRequest\<close> on a child fails), the worker farm's \<^verbatim>\<open>runTransform\<close> handle, and the
  clock: \<open>dateNow k\<close> is what call number \<open>k\<close> of \<^verbatim>\<open>Date.now()\<close> returns, from 0. \<^verbatim>\<open>md5FromObject\<close>
  is taken on a config request and on \<^verbatim>\<open>{moduleSpecifier, resolveFrom}\<close>.
\<close>

record RunWorld =
  realpath :: "FilePath \<Rightarrow> error + FilePath"
  lockFile :: "FilePath option"
  parcelConfigRequest :: "error + FilePath option"
  farmRunTransform :: "FilePath \<Rightarrow> nat \<Rightarrow> AssetRequest \<Rightarrow> error + FarmResult"
  runRequestFails :: "string \<Rightarrow> error option"
  dateNow :: "nat \<Rightarrow> int"
  md5FromConfigRequest :: "string \<Rightarrow> string"
  md5FromDepVersionRequest :: "string \<times> FilePath option \<Rightarrow> string"

definition runRequest :: "RunWorld \<Rightarrow> string \<Rightarrow> string \<Rightarrow> edge list \<Rightarrow> unit M" where
  "runRequest rw ident ty edges =
     bindM (emit (EvRunRequest ident ty edges)) (\<lambda>_.
       case runRequestFails rw ident of None \<Rightarrow> ret () | Some e \<Rightarrow> throw e)"

text \<open>The edges the \<^verbatim>\<open>run\<close> of a \<^verbatim>\<open>config_request\<close> registers.\<close>

definition configRequestEdges :: "ConfigRequestResult \<Rightarrow> edge list" where
  "configRequestEdges res =
     (case resolvedPath res of
        Some rp \<Rightarrow> [FileUpdate rp, FileDelete rp]
      | None \<Rightarrow> [])
     @ concat (map (\<lambda>fp. [FileUpdate fp, FileUpdate fp]) (cr_includedFiles res))
     @ (case watchGlob res of Some g \<Rightarrow> [FileCreate g] | None \<Rightarrow> [])
     @ (if shouldInvalidateOnStartup res then [Startup] else [])"

text \<open>Add dep version requests.\<close>

definition depVersionRequest :: "RunWorld \<Rightarrow> ConfigRequestResult \<Rightarrow> string \<times> string \<Rightarrow> unit M" where
  "depVersionRequest rw res dep =
     runRequest rw
       (''dep_version_request:'' @ md5FromDepVersionRequest rw (fst dep, resolvedPath res))
       ''version_request''
       (case lockFile rw of Some l \<Rightarrow> [FileUpdate l] | None \<Rightarrow> [])"

text \<open>Add config requests: one turn of the loop over \<^verbatim>\<open>configRequests\<close>.\<close>

definition addConfigRequest :: "RunWorld \<Rightarrow> ConfigRequest \<Rightarrow> unit M" where
  "addConfigRequest rw cr =
     bindM (runRequest rw (''config_request:'' @ md5FromConfigRequest rw (cr_request cr))
              ''config_request'' (configRequestEdges (cr_result cr))) (\<lambda>_.
     bindM (mapM (depVersionRequest rw (cr_result cr)) (devDeps (cr_result cr))) (\<lambda>_.
       ret ()))"

definition includedFileEdges :: "Asset list \<Rightarrow> event list" where
  "includedFileEdges as =
     concat (map (\<lambda>asset.
       concat (map (\<lambda>fp. [EvInvalidate (FileUpdate fp), EvInvalidate (FileDelete fp)])
         (map fst (includedFiles asset)))) as)"

text \<open>\<^verbatim>\<open>for (let asset of assets) { asset.stats.time = time; }\<close>\<close>

definition stampTime :: "int \<Rightarrow> Asset list \<Rightarrow> Asset list" where
  "stampTime t as = map (\<lambda>asset. asset\<lparr>a_stats := (a_stats asset)\<lparr>time := t\<rparr>\<rparr>) as"

text \<open>
  \<^verbatim>\<open>run({input, api, options, farm})\<close>. \<^verbatim>\<open>start\<close> is the first reading of the clock,
  taken after the first invalidation is registered; \<^verbatim>\<open>time\<close> is the second reading,
  taken when the farm's handle has returned, less \<^verbatim>\<open>start\<close>.
\<close>

definition run :: "RunWorld \<Rightarrow> AssetRequestInput \<Rightarrow> Asset list M" where
  "run rw inp =
     bindM (lift (realpath rw (req_filePath inp))) (\<lambda>rp.
     bindM (emit (EvInvalidate (FileUpdate rp))) (\<lambda>_.
     bindM (lift (parcelConfigRequest rw)) (\<lambda>cfg.
       case cfg of
         None \<Rightarrow> throw (TypeError ''Got unexpected null'')
       | Some cachePath \<Rightarrow>
           bindM (lift (farmRunTransform rw cachePath (optionsRef inp)
                          (AssetRequest.truncate inp))) (\<lambda>res.
           bindM (Returned (),
                  includedFileEdges
                    (stampTime (dateNow rw 1 - dateNow rw 0) (fa_assets res))) (\<lambda>_.
           bindM (mapM (addConfigRequest rw) (configRequests res)) (\<lambda>_.
             ret (stampTime (dateNow rw 1 - dateNow rw 0) (fa_assets res))))))))"

section \<open>Example plugins, files and requests\<close>

text \<open>
  One world of collaborators, on which the theorems below are run. The theorems themselves
  hold for every world. Its hash keeps only the length of what it hashes, its encoding
  is that of ASCII, and its \<^verbatim>\<open>extname\<close> is the text from the last dot on.
\<close>

definition demoMd5 :: "byte list \<Rightarrow> string" where
  "demoMd5 bs = CHR ''h'' # replicate (length bs) CHR ''x''"

definition demoUtf8 :: "string \<Rightarrow> byte list" where
  "demoUtf8 s = map (\<lambda>c. of_char c) s"

definition demoExtname :: "FilePath \<Rightarrow> string" where
  "demoExtname p =
     (if CHR ''.'' \<in> set p then CHR ''.'' # rev (takeWhile (\<lambda>c. c \<noteq> CHR ''.'') (rev p))
      else [])"

definition demoBytes :: "Blob \<Rightarrow> byte list" where
  "demoBytes b = (case b of Text s \<Rightarrow> demoUtf8 s | Buffer bs \<Rightarrow> bs | ReadStream p \<Rightarrow> [])"

text \<open>
  Modelled from the spec: \<^verbatim>\<open>createChildAsset\<close> of \<^verbatim>\<open>./Asset\<close>, which is not among the
  sources. "Each result becomes a child asset of the input: it inherits \<^verbatim>\<open>idBase\<close> [...],
  carries the declared type, and has its own content hash." The per-result salt of the
  id is left out.
\<close>

definition demoChild :: "InternalAsset \<Rightarrow> TransformerResult \<Rightarrow> InternalAsset" where
  "demoChild inp r =
     inp\<lparr>type := r_type r, content := r_content r, ast := r_ast r, map_src := r_map r,
         hash := demoMd5 (demoBytes (r_content r)),
         dependencies := r_dependencies r, connectedFiles := r_connectedFiles r,
         env := r_env r, isIsolated := r_isIsolated r, meta := r_meta r\<rparr>"

definition demoResult :: "string \<Rightarrow> string \<Rightarrow> AST option \<Rightarrow> TransformerResult" where
  "demoResult ty c a =
     \<lparr>r_type = ty, r_content = Text c, r_ast = a, r_map = None, r_dependencies = [],
      r_connectedFiles = [], r_env = ''browser'', r_isIsolated = False, r_meta = []\<rparr>"

text \<open>
  Seven transformers. \<open>pluginP\<close> (handle 0) loads a config, parses and can generate;
  \<open>pluginQ\<close> (1) reuses only the AST it makes itself; \<open>pluginMD\<close> (2) emits HTML;
  \<open>pluginHTML\<close> (3) hands its input on; \<open>pluginR\<close> (4) emits two assets and merges them
  in \<^verbatim>\<open>postProcess\<close>; \<open>pluginNoGen\<close> (5) parses and has no \<^verbatim>\<open>generate\<close>; \<open>pluginNull\<close>
  (6) has a \<^verbatim>\<open>postProcess\<close> that returns \<^verbatim>\<open>null\<close>.
\<close>

definition pluginP :: Transformer where
  "pluginP =
     \<lparr>getConfig = Some (\<lambda>a. Inr (Some 1)), canReuseAST = None,
      parse = Some (\<lambda>a c. Inr (Some 10)),
      transform_hook = (\<lambda>a c. Inr [View a]),
      generate = Some (\<lambda>a c. Inr \<lparr>g_code = Text ''y=1'', g_map = None\<rparr>),
      postProcess = None\<rparr>"

definition pluginQ :: Transformer where
  "pluginQ =
     \<lparr>getConfig = None, canReuseAST = Some (\<lambda>a. a = 20),
      parse = Some (\<lambda>a c. Inr (Some 20)),
      transform_hook = (\<lambda>a c. Inr [View a]),
      generate = Some (\<lambda>a c. Inr \<lparr>g_code = Text ''z=1'', g_map = Some ''m''\<rparr>),
      postProcess = None\<rparr>"

definition pluginMD :: Transformer where
  "pluginMD =
     \<lparr>getConfig = None, canReuseAST = None, parse = None,
      transform_hook = (\<lambda>a c. Inr [Plain (demoResult ''html'' ''<p>'' None)]),
      generate = None, postProcess = None\<rparr>"

definition pluginHTML :: Transformer where
  "pluginHTML =
     \<lparr>getConfig = None, canReuseAST = None, parse = None,
      transform_hook = (\<lambda>a c. Inr [View a]),
      generate = None, postProcess = None\<rparr>"

definition pluginR :: Transformer where
  "pluginR =
     \<lparr>getConfig = None, canReuseAST = None, parse = None,
      transform_hook =
        (\<lambda>a c. Inr [Plain (demoResult ''css'' ''a{}'' None), Plain (demoResult ''css'' ''b{}'' None)]),
      generate = None,
      postProcess = Some (\<lambda>as c. Inr (Some [demoResult ''css'' ''a{}b{}'' None]))\<rparr>"

definition pluginNoGen :: Transformer where
  "pluginNoGen =
     \<lparr>getConfig = None, canReuseAST = None,
      parse = Some (\<lambda>a c. Inr (Some 30)),
      transform_hook = (\<lambda>a c. Inr [View a]),
      generate = None, postProcess = None\<rparr>"

definition pluginNull :: Transformer where
  "pluginNull =
     \<lparr>getConfig = None, canReuseAST = None, parse = None,
      transform_hook = (\<lambda>a c. Inr [View a]),
      generate = None, postProcess = Some (\<lambda>as c. Inr None)\<rparr>"

definition demoPlugins :: "nat \<Rightarrow> Transformer" where
  "demoPlugins h =
     (if h = 0 then pluginP else if h = 1 then pluginQ else if h = 2 then pluginMD
      else if h = 3 then pluginHTML else if h = 4 then pluginR
      else if h = 5 then pluginNoGen else pluginNull)"

definition demoGetTransformers :: "FilePath \<Rightarrow> error + nat list" where
  "demoGetTransformers p =
     (if p = ''a.js'' then Inr [0, 1] else if p = ''a.md'' then Inr [2]
      else if p = ''a.html'' then Inr [3] else if p = ''a.css'' then Inr [4]
      else if p = ''a.ts'' then Inr [5] else if p = ''a.tsx'' then Inr [5, 1]
      else if p = ''a.txt'' then Inr [6]
      else Inl (PluginError ''No transformers found''))"

definition demoReadFile :: "FilePath \<Rightarrow> byte list list option" where
  "demoReadFile p =
     (if p \<in> set [''a.js'', ''a.md'', ''a.css'', ''a.ts'', ''a.tsx'', ''a.txt'', ''b.txt'']
      then Some [[120, 61], [49]]
      else None)"

definition demoAsset :: InternalAsset where
  "demoAsset =
     \<lparr>idBase = [], filePath = [], type = [], ast = None, content = Buffer [], hash = [],
      map_src = None, env = [], stats = \<lparr>time = 0, size_bytes = 0\<rparr>, sideEffects = None,
      dependencies = [], connectedFiles = [], isIsolated = False, meta = []\<rparr>"

definition demoWorld :: World where
  "demoWorld =
     \<lparr>plugins = demoPlugins, getTransformers = demoGetTransformers,
      readFile = demoReadFile, md5 = demoMd5, utf8 = demoUtf8, stringify = (\<lambda>e. e),
      extname = demoExtname, createChildAsset = demoChild, commit = (\<lambda>a. None),
      assetDefaults = demoAsset\<rparr>"

text \<open>The same world, where every file has 5 MiB of zero bytes, read as two chunks.\<close>

definition bigFileWorld :: World where
  "bigFileWorld =
     demoWorld\<lparr>readFile := (\<lambda>p. Some [replicate 5000000 0, replicate 242880 0])\<rparr>"

definition demoOptions :: ParcelOptions where
  "demoOptions = \<lparr>opt_cache = None, cacheDir = ''.cache''\<rparr>"

definition demoRequest :: "FilePath \<Rightarrow> AssetRequest" where
  "demoRequest p = \<lparr>req_filePath = p, req_env = ''browser'', code = None, req_sideEffects = None\<rparr>"


definition demoCachedAsset :: InternalAsset where
  "demoCachedAsset =
     demoAsset\<lparr>idBase := ''a.js'', filePath := ''a.js'', type := ''js'',
               content := Text ''z=1'', hash := ''hxxx'',
               connectedFiles := [\<lparr>file_filePath = ''b.txt'', file_hash = Some ''hxxx''\<rparr>]\<rparr>"

definition demoEntry :: CacheEntry where
  "demoEntry =
     \<lparr>ce_filePath = ''a.js'', ce_env = ''browser'', ce_hash = ''hxxx'',
      assets = [demoCachedAsset], initialAssets = None\<rparr>"

definition demoCache :: "string \<rightharpoonup> CacheEntry" where
  "demoCache = [reqCacheKey demoWorld (demoRequest ''a.js'') \<mapsto> demoEntry]"

definition demoInlineRequest :: AssetRequest where
  "demoInlineRequest = (demoRequest ''a.md'')\<lparr>code := Some ''# hi''\<rparr>"

definition demoInlineEntry :: CacheEntry where
  "demoInlineEntry =
     \<lparr>ce_filePath = ''a.md'', ce_env = ''browser'', ce_hash = ''hxxxx'',
      assets =
        [demoAsset\<lparr>idBase := ''hxxxx'', filePath := ''a.md'', type := ''html'',
                   content := Text ''<p>'', hash := ''hxxx'', env := ''browser'',
                   stats := \<lparr>time = 0, size_bytes = 4\<rparr>\<rparr>],
      initialAssets = None\<rparr>"

definition demoMdEntry :: CacheEntry where
  "demoMdEntry =
     \<lparr>ce_filePath = ''a.md'', ce_env = ''browser'', ce_hash = ''hxxx'',
      assets =
        [demoAsset\<lparr>idBase := ''a.md'', filePath := ''a.md'', type := ''html'',
                   content := Text ''<p>'', hash := ''hxxx'', env := ''browser'',
                   stats := \<lparr>time = 0, size_bytes = 3\<rparr>\<rparr>],
      initialAssets = None\<rparr>"

definition demoInlineJs :: AssetRequest where
  "demoInlineJs = (demoRequest ''a.js'')\<lparr>code := Some ''x=1''\<rparr>"

text \<open>An asset that the first transformer of the \<^verbatim>\<open>a.js\<close> pipeline left with its AST.\<close>

definition demoAstAsset :: InternalAsset where
  "demoAstAsset =
     demoAsset\<lparr>idBase := ''a.js'', filePath := ''a.js'', type := ''js'', ast := Some 10,
               content := Text ''x=1'', hash := ''hxxx'', env := ''browser''\<rparr>"

text \<open>The top-level call of \<^verbatim>\<open>runPipeline\<close> for a file of the example world.\<close>

definition demoInput :: "FilePath \<Rightarrow> InternalAsset" where
  "demoInput p =
     demoAsset\<lparr>idBase := p, filePath := p, type := drop 1 (demoExtname p),
               content := Buffer [120, 61, 49], hash := ''hxxx'', env := ''browser'',
               stats := \<lparr>time = 0, size_bytes = 3\<rparr>\<rparr>"

definition demoTop :: "FilePath \<Rightarrow> nat list \<Rightarrow> PipelineOpts" where
  "demoTop p pl =
     \<lparr>input = demoInput p, originalPipeline = None, pipeline = pl, cacheEntry = None,
      previousGenerate = None\<rparr>"

text \<open>
  What \<^verbatim>\<open>summarizeRequest\<close> gives for every file of the example world, and what the
  first step of the \<^verbatim>\<open>a.ts\<close> and \<^verbatim>\<open>a.tsx\<close> pipelines returns: the transformer 5 parses
  and hands its input on, with the AST.
\<close>

definition demoSummary :: Summary where
  "demoSummary = \<lparr>s_content = Buffer [120, 61, 49], s_hash = ''hxxx'', s_size = 3\<rparr>"

definition demoParsedRun :: "FilePath \<Rightarrow> TransformRun" where
  "demoParsedRun p =
     \<lparr>results = normalizeAssets [View ((demoInput p)\<lparr>ast := Some 30\<rparr>)],
      tr_generate = (5, None),
      tr_postProcess = (5, None, (demoInput p)\<lparr>ast := Some 30\<rparr>),
      tr_input = (demoInput p)\<lparr>ast := Some 30\<rparr>\<rparr>"

text \<open>What the single step of the \<^verbatim>\<open>a.css\<close> pipeline returns, and the children of that step.\<close>

definition demoCssRun :: TransformRun where
  "demoCssRun =
     \<lparr>results = [demoResult ''css'' ''a{}'' None, demoResult ''css'' ''b{}'' None],
      tr_generate = (4, None), tr_postProcess = (4, None, demoInput ''a.css''),
      tr_input = demoInput ''a.css''\<rparr>"

definition demoCssChildren :: "InternalAsset list" where
  "demoCssChildren =
     [demoChild (demoInput ''a.css'') (demoResult ''css'' ''a{}'' None),
      demoChild (demoInput ''a.css'') (demoResult ''css'' ''b{}'' None)]"

text \<open>The child asset of the single step of the \<^verbatim>\<open>a.txt\<close> pipeline.\<close>

definition demoTxtChild :: InternalAsset where
  "demoTxtChild =
     demoChild (demoInput ''a.txt'') (hd (normalizeAssets [View (demoInput ''a.txt'')]))"

text \<open>
  The variables of the loop in the top-level \<^verbatim>\<open>runPipeline\<close> call for a file, given the
  pipeline, the cache entry and the \<^verbatim>\<open>generate\<close> closure.
\<close>

definition demoFrame :: "FilePath \<Rightarrow> nat list \<Rightarrow> CacheEntry option \<Rightarrow> GenerateFunc \<Rightarrow> Frame" where
  "demoFrame p pl ce g =
     \<lparr>fr_input = demoInput p, fr_inputType = drop 1 (demoExtname p), fr_pipeline = pl,
      fr_originalPipeline = pl, fr_cacheEntry = ce, fr_generate = g\<rparr>"

text \<open>
  An entry stored for an earlier content of \<^verbatim>\<open>a.md\<close>: its one asset has the hash of the
  HTML that the markdown transformer still produces.
\<close>

definition demoCachedHtml :: InternalAsset where
  "demoCachedHtml =
     demoAsset\<lparr>idBase := ''a.md'', filePath := ''a.md'', type := ''html'',
               content := Text ''<b>'', hash := ''hxxx'', env := ''browser''\<rparr>"

definition demoStaleEntry :: CacheEntry where
  "demoStaleEntry =
     \<lparr>ce_filePath = ''a.md'', ce_env = ''browser'', ce_hash = ''stale'',
      assets = [demoCachedHtml], initialAssets = None\<rparr>"

text \<open>
  An asset request as the request graph runs it: the farm returns two assets and one
  config request, and the clock reads 1000 and then 1250.
\<close>

definition demoFarmAssets :: "Asset list" where
  "demoFarmAssets =
     [\<lparr>a_stats = \<lparr>time = 0, size_bytes = 3\<rparr>,
       includedFiles = [(''b.txt'', \<lparr>file_filePath = ''b.txt'', file_hash = None\<rparr>)]\<rparr>,
      \<lparr>a_stats = \<lparr>time = 7, size_bytes = 5\<rparr>, includedFiles = []\<rparr>]"

definition demoConfigRequest :: ConfigRequest where
  "demoConfigRequest =
     \<lparr>cr_request = ''babel'',
      cr_result =
        \<lparr>resolvedPath = Some ''.babelrc'', cr_includedFiles = [''preset.js''],
         watchGlob = None, shouldInvalidateOnStartup = False,
         devDeps = [(''dep'', ''1.0.0'')]\<rparr>\<rparr>"

definition demoRunWorld :: RunWorld where
  "demoRunWorld =
     \<lparr>realpath = (\<lambda>p. Inr p), lockFile = Some ''yarn.lock'',
      parcelConfigRequest = Inr (Some ''.parcel-cache/config''),
      farmRunTransform =
        (\<lambda>cachePath ref req.
           Inr \<lparr>fa_assets = demoFarmAssets, configRequests = [demoConfigRequest]\<rparr>),
      runRequestFails = (\<lambda>ident. None),
      dateNow = (\<lambda>k. if k = 0 then 1000 else 1250),
      md5FromConfigRequest = (\<lambda>r. r),
      md5FromDepVersionRequest = (\<lambda>r. fst r)\<rparr>"

definition demoRunInput :: AssetRequestInput where
  "demoRunInput =
     \<lparr>req_filePath = ''a.js'', req_env = ''browser'', code = None, req_sideEffects = None,
      optionsRef = 1\<rparr>"

definition demoStamped :: "Asset list" where
  "demoStamped =
     [\<lparr>a_stats = \<lparr>time = 250, size_bytes = 3\<rparr>,
       includedFiles = [(''b.txt'', \<lparr>file_filePath = ''b.txt'', file_hash = None\<rparr>)]\<rparr>,
      \<lparr>a_stats = \<lparr>time = 250, size_bytes = 5\<rparr>, includedFiles = []\<rparr>]"

section \<open>Properties\<close>

text \<open>The equations of the pipeline runner are unfolded where a proof asks for them.\<close>

declare runPipeline.simps [simp del] runChildren.simps [simp del] runChild.simps [simp del]

subsection \<open>The outcome monad\<close>

lemma bindM_ret [simp]: "bindM (ret x) f = f x"
  by (simp add: bindM_def ret_def split: prod.splits)

lemma bindM_throw [simp]: "bindM (throw e) f = throw e"
  by (simp add: bindM_def throw_def)

lemma bindM_Returned: "bindM (Returned x, es) f = (fst (f x), es @ snd (f x))"
  by (simp add: bindM_def split: prod.splits)

lemma bindM_Thrown [simp]: "bindM (Thrown e, es) f = (Thrown e, es)"
  by (simp add: bindM_def)

lemma bindM_Timeout [simp]: "bindM (Timeout, es) f = (Timeout, es)"
  by (simp add: bindM_def)

lemma bindM_emit: "bindM (emit ev) f = (fst (f ()), ev # snd (f ()))"
  by (simp add: emit_def bindM_Returned)

lemma fst_ret [simp]: "fst (ret x) = Returned x"
  by (simp add: ret_def)

lemma snd_ret [simp]: "snd (ret x) = []"
  by (simp add: ret_def)

lemma fst_throw [simp]: "fst (throw e) = Thrown e"
  by (simp add: throw_def)

lemma snd_throw [simp]: "snd (throw e) = []"
  by (simp add: throw_def)

lemma mapM_ret: "(\<And>x. x \<in> set xs \<Longrightarrow> f x = ret (g x)) \<Longrightarrow> mapM f xs = ret (map g xs)"
  by (induction xs) simp_all

subsection \<open>The example world\<close>

lemmas demo_simps =
  demoWorld_def demoOptions_def demoRequest_def demoReadFile_def demoMd5_def demoUtf8_def
  demoExtname_def demoGetTransformers_def demoPlugins_def demoChild_def demoBytes_def
  demoResult_def demoAsset_def

lemma demoRequest_sel [simp]:
  "req_filePath (demoRequest p) = p" "req_env (demoRequest p) = ''browser''"
  "code (demoRequest p) = None" "req_sideEffects (demoRequest p) = None"
  by (simp_all add: demoRequest_def)

subsection \<open>Buffering in summarizeRequest\<close>

text \<open>Once the content is a stream it stays one; the size goes on counting.\<close>

lemma tap_stream:
  "foldl (tap p) (ReadStream q, n) chunks = (ReadStream q, n + length (concat chunks))"
  by (induction chunks arbitrary: n) simp_all

text \<open>
  The loop invariant of the tap: while the running size is within the limit the buffer
  holds every byte seen; the first chunk that takes the size over the limit replaces it.
\<close>

lemma tap_buffer:
  "n \<le> BUFFER_LIMIT \<Longrightarrow>
   foldl (tap p) (Buffer bs, n) chunks =
     (if n + length (concat chunks) \<le> BUFFER_LIMIT then Buffer (bs @ concat chunks)
      else ReadStream p, n + length (concat chunks))"
proof (induction chunks arbitrary: n bs)
  case Nil
  then show ?case by simp
next
  case (Cons c cs)
  show ?case
  proof (cases "n + length c \<le> BUFFER_LIMIT")
    case True
    then show ?thesis using Cons.IH [of "n + length c" "bs @ c"] by (simp add: add.assoc)
  next
    case False
    then show ?thesis by (simp add: tap_stream)
  qed
qed

lemma summarizeRequest_file:
  assumes "code req = None" and "readFile w (req_filePath req) = Some chunks"
  shows "summarizeRequest w req =
           ret \<lparr>s_content =
                  (if length (concat chunks) \<le> BUFFER_LIMIT then Buffer (concat chunks)
                   else ReadStream (req_filePath req)),
                s_hash = md5 w (concat chunks),
                s_size = length (concat chunks)\<rparr>"
  using assms tap_buffer [of 0 "req_filePath req" "[]" chunks]
  by (simp add: summarizeRequest_def)

text \<open>
  Claim C7, as amended. For a file request (\<^verbatim>\<open>code == null\<close>) on a file that can be
  read, whatever the chunks its stream delivers: \<^verbatim>\<open>summarizeRequest\<close> returns the whole
  file in a buffer when the file has at most 5,000,000 bytes (\<^verbatim>\<open>BUFFER_LIMIT\<close>), and a
  read stream on the file when it has 5,000,001 bytes or more; in both cases the hash is
  the md5 of all the bytes and the size is their number.
\<close>

theorem summarizeRequest_buffer_limit:
  assumes "code req = None" and "readFile w (req_filePath req) = Some chunks"
  shows "summarizeRequest w req =
           ret \<lparr>s_content =
                  (if length (concat chunks) \<le> 5000000 then Buffer (concat chunks)
                   else ReadStream (req_filePath req)),
                s_hash = md5 w (concat chunks),
                s_size = length (concat chunks)\<rparr>"
  using summarizeRequest_file [OF assms] by (simp add: BUFFER_LIMIT_def)

text \<open>The file \<^verbatim>\<open>a.js\<close> of the example, three bytes in two chunks, is buffered.\<close>

theorem summarizeRequest_buffer_limit_witness:
  "code (demoRequest ''a.js'') = None
   \<and> readFile demoWorld ''a.js'' = Some [[120, 61], [49]]
   \<and> summarizeRequest demoWorld (demoRequest ''a.js'') =
       ret \<lparr>s_content = Buffer [120, 61, 49], s_hash = ''hxxx'', s_size = 3\<rparr>"
proof -
  have h1: "code (demoRequest ''a.js'') = None" by simp
  have h2: "readFile demoWorld (req_filePath (demoRequest ''a.js'')) = Some [[120, 61], [49]]"
    by (simp add: demo_simps)
  show ?thesis
    using summarizeRequest_buffer_limit [OF h1 h2] h2
    by (simp add: demoWorld_def demoMd5_def numeral_3_eq_3)
qed

text \<open>
  Claim C7 as stated fails: a file of exactly 5 MiB (5,242,880 bytes, here read as two
  chunks) is not kept in a buffer; its content is a read stream on the file.
\<close>

theorem summarizeRequest_5MiB_counterexample:
  "readFile bigFileWorld ''big.bin'' = Some [replicate 5000000 0, replicate 242880 0]
   \<and> length (concat [replicate 5000000 (0::byte), replicate 242880 0]) = 5 * 1024 * 1024
   \<and> fst (summarizeRequest bigFileWorld (demoRequest ''big.bin'')) =
       Returned \<lparr>s_content = ReadStream ''big.bin'',
                 s_hash = demoMd5 (concat [replicate 5000000 0, replicate 242880 0]),
                 s_size = 5242880\<rparr>"
proof -
  have h1: "code (demoRequest ''big.bin'') = None" by simp
  have h2: "readFile bigFileWorld (req_filePath (demoRequest ''big.bin''))
              = Some [replicate 5000000 0, replicate 242880 0]"
    by (simp add: bigFileWorld_def)
  show ?thesis
    using summarizeRequest_file [OF h1 h2] h2
    by (simp add: BUFFER_LIMIT_def bigFileWorld_def demoWorld_def)
qed

subsection \<open>Cache hits\<close>

lemma checkConnectedFiles_unchanged:
  assumes "\<forall>f\<in>set files. \<exists>cs. readFile w (file_filePath f) = Some cs
             \<and> file_hash f = Some (md5 w (concat cs))"
  shows "checkConnectedFiles w files = ret True"
proof -
  let ?g = "\<lambda>f. md5 w (concat (the (readFile w (file_filePath f))))"
  have "mapM (\<lambda>file. md5FromFilePath w (file_filePath file)) files = ret (map ?g files)"
    using assms by (intro mapM_ret) (auto simp: md5FromFilePath_def)
  moreover have "list_all (\<lambda>(file, h). file_hash file = Some h) (zip files (map ?g files))"
    using assms by (induction files) auto
  ultimately show ?thesis by (simp add: checkConnectedFiles_def)
qed

lemma checkCachedAssets_unchanged:
  assumes "\<forall>a\<in>set as. \<forall>f\<in>set (connectedFiles a). \<exists>cs.
             readFile w (file_filePath f) = Some cs \<and> file_hash f = Some (md5 w (concat cs))"
  shows "checkCachedAssets w as = ret True"
proof -
  have "mapM (\<lambda>asset. checkConnectedFiles w (connectedFiles asset)) as
          = ret (map (\<lambda>a. True) as)"
    using assms by (intro mapM_ret) (simp add: checkConnectedFiles_unchanged)
  then show ?thesis by (simp add: checkCachedAssets_def list_all_iff)
qed

text \<open>
  Claim C1. A file request with the cache enabled, for which \<^verbatim>\<open>cache.get\<close> finds an
  entry whose hash is the md5 of the file as it is now, and every connected file of every
  asset of the entry can be read and hashes to its recorded hash: \<^verbatim>\<open>transform\<close> returns
  that entry and leaves the cache as it is, having made two calls only, the progress
  report and the cache lookup; no transformer hook runs.
\<close>

theorem transform_cache_hit:
  assumes "opt_cache opts \<noteq> Some False" and "code req = None"
    and "cache (reqCacheKey w req) = Some e"
    and "readFile w (req_filePath req) = Some chunks"
    and "ce_hash e = md5 w (concat chunks)"
    and "\<forall>a\<in>set (assets e). \<forall>f\<in>set (connectedFiles a). \<exists>cs.
           readFile w (file_filePath f) = Some cs \<and> file_hash f = Some (md5 w (concat cs))"
  shows "transform w opts fuel req cache =
           ((Returned e, [EvReport (req_filePath req), EvCacheGet (reqCacheKey w req)]), cache)
         \<and> filter isHook (snd (fst (transform w opts fuel req cache))) = []"
proof -
  have "transformServe w opts fuel req cache =
          (Returned (FromCache e), [EvReport (req_filePath req), EvCacheGet (reqCacheKey w req)])"
    using assms(1-5) checkCachedAssets_unchanged [OF assms(6)]
    by (simp add: transformServe_def bindM_emit bindM_Returned summarizeRequest_file)
  then show ?thesis by (simp add: transform_def isHook_def)
qed

text \<open>
  The example: \<^verbatim>\<open>a.js\<close> was stored with one asset that has the connected file
  \<^verbatim>\<open>b.txt\<close>; neither file has changed.
\<close>

theorem transform_cache_hit_witness:
  "code (demoRequest ''a.js'') = None
   \<and> demoCache (reqCacheKey demoWorld (demoRequest ''a.js'')) = Some demoEntry
   \<and> transform demoWorld demoOptions 5 (demoRequest ''a.js'') demoCache =
       ((Returned demoEntry,
         [EvReport ''a.js'', EvCacheGet (reqCacheKey demoWorld (demoRequest ''a.js''))]),
        demoCache)
   \<and> filter isHook
       (snd (fst (transform demoWorld demoOptions 5 (demoRequest ''a.js'') demoCache))) = []"
proof -
  have h1: "opt_cache demoOptions \<noteq> Some False"
    by (simp add: demoOptions_def)
  have h2: "code (demoRequest ''a.js'') = None"
    by simp
  have h3: "demoCache (reqCacheKey demoWorld (demoRequest ''a.js'')) = Some demoEntry"
    by (simp add: demoCache_def)
  have h4: "readFile demoWorld (req_filePath (demoRequest ''a.js'')) = Some [[120, 61], [49]]"
    by (simp add: demo_simps)
  have h5: "ce_hash demoEntry = md5 demoWorld (concat [[120, 61], [49]])"
    by (simp add: demo_simps demoEntry_def)
  have h6: "\<forall>a\<in>set (assets demoEntry). \<forall>f\<in>set (connectedFiles a). \<exists>cs.
              readFile demoWorld (file_filePath f) = Some cs
              \<and> file_hash f = Some (md5 demoWorld (concat cs))"
    by (simp add: demo_simps demoEntry_def demoCachedAsset_def)
  show ?thesis
    using transform_cache_hit [where cache = demoCache and w = demoWorld and fuel = 5,
        OF h1 h2 h3 h4 h5 h6] h2 h3
    by (simp add: isHook_def)
qed

subsection \<open>The events of a pipeline run\<close>

lemma snd_bindM:
  "snd (bindM m f) = snd m @ (case fst m of Returned x \<Rightarrow> snd (f x) | _ \<Rightarrow> [])"
  by (cases m; cases "fst m") (auto simp: bindM_Returned)

lemma fst_bindM:
  "fst (bindM m f) =
     (case fst m of Returned x \<Rightarrow> fst (f x) | Thrown e \<Rightarrow> Thrown e | Timeout \<Rightarrow> Timeout)"
  by (cases m; cases "fst m") (auto simp: bindM_Returned)

lemma bindM_events:
  assumes "\<forall>ev\<in>set (snd m). P ev"
    and "\<And>x es. m = (Returned x, es) \<Longrightarrow> \<forall>ev\<in>set (snd (f x)). P ev"
  shows "\<forall>ev\<in>set (snd (bindM m f)). P ev"
proof (cases m)
  case (Pair r es)
  then show ?thesis using assms by (cases r) (auto simp: bindM_Returned)
qed

lemma snd_emit [simp]: "snd (emit ev) = [ev]"
  by (simp add: emit_def)

lemma fst_emit [simp]: "fst (emit ev) = Returned ()"
  by (simp add: emit_def)

lemma snd_lift [simp]: "snd (lift r) = []"
  by (cases r) (simp_all add: lift_def)

lemma mapM_no_events: "(\<And>x. snd (f x) = []) \<Longrightarrow> snd (mapM f xs) = []"
  by (induction xs) (simp_all add: snd_bindM split: outcome.splits)

lemma md5FromFilePath_no_events [simp]: "snd (md5FromFilePath w p) = []"
  by (simp add: md5FromFilePath_def split: option.splits)

lemma checkConnectedFiles_no_events [simp]: "snd (checkConnectedFiles w files) = []"
  by (simp add: checkConnectedFiles_def snd_bindM mapM_no_events split: outcome.splits)

lemma checkCachedAssets_no_events [simp]: "snd (checkCachedAssets w as) = []"
  by (simp add: checkCachedAssets_def snd_bindM mapM_no_events split: outcome.splits)

lemma tryCache_no_events [simp]: "snd (tryCache w fr asset) = []"
  by (simp add: tryCache_def snd_bindM Let_def split: outcome.splits option.splits)

lemma callGenerate_events: "ev \<in> set (snd (callGenerate w g a)) \<Longrightarrow> ev = EvHook (fst g) Generate"
  by (auto simp: callGenerate_def snd_bindM split: prod.splits option.splits outcome.splits)

lemma finalize_events: "ev \<in> set (snd (finalize w a g)) \<Longrightarrow> ev = EvHook (fst g) Generate"
  by (auto simp: finalize_def snd_bindM dest: callGenerate_events
      split: option.splits outcome.splits)

lemma callPostProcess_events:
  "ev \<in> set (snd (callPostProcess w pp as)) \<Longrightarrow> ev = EvHook (fst pp) PostProcess"
  by (auto simp: callPostProcess_def snd_bindM fst_bindM
      split: prod.splits option.splits outcome.splits)

lemma loadConfig_events: "ev \<in> set (snd (loadConfig w t a)) \<Longrightarrow> ev = EvHook t GetConfig"
  by (auto simp: loadConfig_def snd_bindM split: option.splits outcome.splits)

lemma cannotReuse_events: "ev \<in> set (snd (cannotReuse w t a)) \<Longrightarrow> ev = EvHook t CanReuseAST"
  by (auto simp: cannotReuse_def snd_bindM split: option.splits outcome.splits)

lemma regenerate_events: "ev \<in> set (snd (regenerate w t a pg)) \<Longrightarrow> isHook ev"
  by (auto simp: regenerate_def snd_bindM isHook_def
      dest!: callGenerate_events cannotReuse_events
      split: option.splits outcome.splits if_splits)

lemma parseIfNeeded_events: "ev \<in> set (snd (parseIfNeeded w t c a)) \<Longrightarrow> ev = EvHook t Parse"
  by (auto simp: parseIfNeeded_def snd_bindM fst_bindM split: option.splits outcome.splits)

lemma callTransform_events [simp]: "snd (callTransform w t c a) = [EvHook t TransformHook]"
  by (simp add: callTransform_def snd_bindM fst_bindM split: outcome.splits)

lemma runTransform_events: "ev \<in> set (snd (runTransform w a tr pg)) \<Longrightarrow> isHook ev"
  by (auto simp: runTransform_def snd_bindM fst_bindM isHook_def
      dest!: loadConfig_events regenerate_events parseIfNeeded_events
      split: option.splits outcome.splits)

lemma nextPipelineFor_events:
  "ev \<in> set (snd (nextPipelineFor w fr r)) \<Longrightarrow> \<exists>p. ev = EvGetTransformers p"
  by (auto simp: nextPipelineFor_def snd_bindM split: outcome.splits if_splits)


lemma nextPipelineFor_Returned:
  assumes "nextPipelineFor w fr r = (Returned np, es)"
  shows "np = fr_originalPipeline fr
         \<or> (\<exists>p. getTransformers w p = Inr np)"
  using assms
  by (auto simp: nextPipelineFor_def bindM_emit ret_def lift_def throw_def
      split: if_splits sum.splits)

lemma isEqualPipeline_iff: "isEqualPipeline a b \<longleftrightarrow> a = b"
proof -
  have "length a = length b \<Longrightarrow> list_all (\<lambda>(p, q). p = q) (zip a b) \<longleftrightarrow> a = b"
    by (induction a b rule: list_induct2) auto
  then show ?thesis by (auto simp: isEqualPipeline_def)
qed

lemma isHookE: "isHook ev \<Longrightarrow> (\<And>t h. P (EvHook t h)) \<Longrightarrow> P ev"
  by (cases ev) (simp_all add: isHook_def)

lemma pipeline_events:
  fixes G :: "nat list \<Rightarrow> bool"
  assumes hook: "\<And>t h. P (EvHook t h)"
    and gt: "\<And>p. P (EvGetTransformers p)"
    and rp: "\<And>pl. G pl \<Longrightarrow> P (EvRunPipeline pl)"
    and tail: "\<And>pl. G pl \<Longrightarrow> length pl \<noteq> 1 \<Longrightarrow> G (tl pl)"
  shows "(\<forall>p ps. getTransformers w p = Inr ps \<longrightarrow> G ps) \<and> G (pipeline po)
           \<longrightarrow> (\<forall>ev\<in>set (snd (runPipeline w n po)). P ev)"
    and "(\<forall>p ps. getTransformers w p = Inr ps \<longrightarrow> G ps) \<and> G (fr_pipeline fr)
           \<longrightarrow> (\<forall>ev\<in>set (snd (runChildren w n fr rs as)). P ev)"
    and "(\<forall>p ps. getTransformers w p = Inr ps \<longrightarrow> G ps) \<and> G (fr_pipeline fr)
           \<longrightarrow> (\<forall>ev\<in>set (snd (runChild w n fr r)). P ev)"
proof (induction w n po and w n fr rs as and w n fr r rule: runPipeline_runChildren_runChild.induct)
  case (1 w po)
  show ?case by (simp add: runPipeline.simps)
next
  case (2 w n po)
  show ?case
  proof
    assume a: "(\<forall>p ps. getTransformers w p = Inr ps \<longrightarrow> G ps) \<and> G (pipeline po)"
    then have g: "G (pipeline po)" by simp
    have tr: "\<forall>ev\<in>set (snd (runTransform w (input po) (headOf (pipeline po))
                 (previousGenerate po))). P ev"
      using runTransform_events hook by (blast intro: isHookE)
    have pp: "\<And>pf as. \<forall>ev\<in>set (snd (callPostProcess w pf as)). P ev"
      using callPostProcess_events hook by blast
    have ih: "\<And>rt :: TransformRun. \<forall>ev\<in>set (snd (runChildren w n
              \<lparr>fr_input = tr_input rt, fr_inputType = type (input po),
               fr_pipeline = pipeline po,
               fr_originalPipeline =
                 (case originalPipeline po of None \<Rightarrow> pipeline po | Some op \<Rightarrow> op),
               fr_cacheEntry = cacheEntry po, fr_generate = tr_generate rt\<rparr>
              (results rt) [])). P ev"
      using "2.IH" a by simp
    show "\<forall>ev\<in>set (snd (runPipeline w (Suc n) po)). P ev"
      unfolding runPipeline.simps
      by (intro bindM_events tr ih pp) (simp_all add: rp g)
  qed
next
  case (3 w n fr as)
  show ?case by (simp add: runChildren.simps)
next
  case (4 w n fr result rest as)
  show ?case
  proof
    assume a: "(\<forall>p ps. getTransformers w p = Inr ps \<longrightarrow> G ps) \<and> G (fr_pipeline fr)"
    have ih1: "\<forall>ev\<in>set (snd (runChild w n fr result)). P ev"
      using "4.IH"(1) a by simp
    have ih2: "\<And>new. \<forall>ev\<in>set (snd (runChildren w n fr rest (as @ new))). P ev"
      using "4.IH"(2) a by simp
    show "\<forall>ev\<in>set (snd (runChildren w n fr (result # rest) as)). P ev"
      unfolding runChildren.simps by (intro bindM_events ih1 ih2)
  qed
next
  case (5 w n fr result)
  show ?case
  proof
    assume a: "(\<forall>p ps. getTransformers w p = Inr ps \<longrightarrow> G ps) \<and> G (fr_pipeline fr)"
    then have g: "G (fr_pipeline fr)"
      and jump: "\<And>p ps. getTransformers w p = Inr ps \<Longrightarrow> G ps"
      by simp_all
    have fin: "\<And>a. \<forall>ev\<in>set (snd (finalize w a (fr_generate fr))). P ev"
      using finalize_events hook by blast
    have np: "\<forall>ev\<in>set (snd (nextPipelineFor w fr result)). P ev"
      using nextPipelineFor_events gt by blast
    have route: "\<forall>ev\<in>set (snd (
            if isEqualPipeline (fr_originalPipeline fr) x then
               (if length (fr_pipeline fr) = 1 then
                  bindM (finalize w (createChildAsset w (fr_input fr) result) (fr_generate fr))
                    (\<lambda>a. ret [a])
                else
                  bindM (runPipeline w n
                           \<lparr>input = createChildAsset w (fr_input fr) result,
                            originalPipeline = Some (fr_originalPipeline fr),
                            pipeline = tl (fr_pipeline fr),
                            cacheEntry = None,
                            previousGenerate = Some (fr_generate fr)\<rparr>)
                    (\<lambda>nextPipelineResult. ret (pr_assets nextPipelineResult)))
             else
               bindM (runPipeline w n
                        \<lparr>input = createChildAsset w (fr_input fr) result,
                         originalPipeline = None,
                         pipeline = x,
                         cacheEntry = None,
                         previousGenerate = Some (fr_generate fr)\<rparr>)
                 (\<lambda>nextPipelineResult. ret (pr_assets nextPipelineResult)))). P ev"
      if r: "nextPipelineFor w fr result = (Returned x, es)" for x es
    proof (cases "isEqualPipeline (fr_originalPipeline fr) x")
      case True
      show ?thesis
      proof (cases "length (fr_pipeline fr) = 1")
        case one: True
        show ?thesis
          by (simp only: True one if_True refl) (intro bindM_events fin, simp)
      next
        case more: False
        have "G (tl (fr_pipeline fr))" using tail g more by simp
        then have ih: "\<forall>ev\<in>set (snd (runPipeline w n
                          \<lparr>input = createChildAsset w (fr_input fr) result,
                           originalPipeline = Some (fr_originalPipeline fr),
                           pipeline = tl (fr_pipeline fr),
                           cacheEntry = None,
                           previousGenerate = Some (fr_generate fr)\<rparr>)). P ev"
          using "5.IH"(1) [OF True more] a by simp
        show ?thesis
          by (simp only: True more if_True if_False) (intro bindM_events ih, simp)
      qed
    next
      case False
      have "x \<noteq> fr_originalPipeline fr" using False by (simp add: isEqualPipeline_iff)
      then have "G x" using nextPipelineFor_Returned [OF r] jump by auto
      then have ih: "\<forall>ev\<in>set (snd (runPipeline w n
                       \<lparr>input = createChildAsset w (fr_input fr) result,
                        originalPipeline = None,
                        pipeline = x,
                        cacheEntry = None,
                        previousGenerate = Some (fr_generate fr)\<rparr>)). P ev"
        using "5.IH"(2) [OF False] a by simp
      show ?thesis
        by (simp only: False if_False) (intro bindM_events ih, simp)
    qed
    show "\<forall>ev\<in>set (snd (runChild w n fr result)). P ev"
      unfolding runChild.simps
    proof (intro bindM_events)
      show "\<forall>ev\<in>set (snd (tryCache w fr (createChildAsset w (fr_input fr) result))). P ev"
        by simp
    next
      fix hit :: "InternalAsset list option" and es :: "event list"
      show "\<forall>ev\<in>set (snd (case hit of
              Some cachedAssets \<Rightarrow> ret cachedAssets
            | None \<Rightarrow>
                bindM (nextPipelineFor w fr result) (\<lambda>nextPipeline.
                  if isEqualPipeline (fr_originalPipeline fr) nextPipeline then
                    (if length (fr_pipeline fr) = 1 then
                       bindM (finalize w (createChildAsset w (fr_input fr) result) (fr_generate fr))
                         (\<lambda>a. ret [a])
                     else
                       bindM (runPipeline w n
                                \<lparr>input = createChildAsset w (fr_input fr) result,
                                 originalPipeline = Some (fr_originalPipeline fr),
                                 pipeline = tl (fr_pipeline fr),
                                 cacheEntry = None,
                                 previousGenerate = Some (fr_generate fr)\<rparr>)
                         (\<lambda>nextPipelineResult. ret (pr_assets nextPipelineResult)))
                  else
                    bindM (runPipeline w n
                             \<lparr>input = createChildAsset w (fr_input fr) result,
                              originalPipeline = None,
                              pipeline = nextPipeline,
                              cacheEntry = None,
                              previousGenerate = Some (fr_generate fr)\<rparr>)
                      (\<lambda>nextPipelineResult. ret (pr_assets nextPipelineResult))))). P ev"
      proof (cases hit)
        case (Some cachedAssets)
        then show ?thesis by simp
      next
        case None
        show ?thesis
          unfolding None option.case
          by (rule bindM_events [OF np]) (rule route)
      qed
    qed
  qed
qed

subsection \<open>transform and the persistent cache\<close>

lemma commitAll_events: "snd (commitAll w as) = map EvCommit as"
  by (simp add: commitAll_def bindM_Returned split: list.splits)

lemma transformFresh_events:
  fixes G :: "nat list \<Rightarrow> bool"
  assumes hook: "\<And>t h. P (EvHook t h)"
    and gt: "\<And>p. P (EvGetTransformers p)"
    and rp: "\<And>pl. G pl \<Longrightarrow> P (EvRunPipeline pl)"
    and tail: "\<And>pl. G pl \<Longrightarrow> length pl \<noteq> 1 \<Longrightarrow> G (tl pl)"
    and cm: "\<And>a. P (EvCommit a)"
    and jump: "\<forall>p ps. getTransformers w p = Inr ps \<longrightarrow> G ps"
  shows "\<forall>ev\<in>set (snd (transformFresh w fuel req s ce)). P ev"
  unfolding transformFresh_def
proof (intro bindM_events)
  show "\<forall>ev\<in>set (snd (emit (EvGetTransformers (req_filePath req)))). P ev"
    by (simp add: gt)
next
  show "\<forall>ev\<in>set (snd (lift (getTransformers w (req_filePath req)))). P ev"
    by simp
next
  fix pl es
  assume "lift (getTransformers w (req_filePath req)) = (Returned pl, es)"
  then have "getTransformers w (req_filePath req) = Inr pl"
    by (simp add: lift_def ret_def throw_def split: sum.splits)
  then have "G pl" using jump by blast
  then show "\<forall>ev\<in>set (snd (runPipeline w fuel
              \<lparr>input = newInput w req s, originalPipeline = None, pipeline = pl,
               cacheEntry = ce, previousGenerate = None\<rparr>)). P ev"
    using pipeline_events(1) [of P G w
        "\<lparr>input = newInput w req s, originalPipeline = None, pipeline = pl,
          cacheEntry = ce, previousGenerate = None\<rparr>" fuel, OF hook gt rp tail] jump
    by simp
next
  fix res :: PipelineResult
  show "\<forall>ev\<in>set (snd (commitAll w
              (remdups (pr_assets res @
                 (case pr_initialAssets res of None \<Rightarrow> [] | Some ia \<Rightarrow> ia))))). P ev"
    by (simp add: commitAll_events cm)
next
  fix res :: PipelineResult
  show "\<forall>ev\<in>set (snd (ret (Fresh \<lparr>ce_filePath = req_filePath req, ce_env = req_env req,
                   ce_hash = s_hash s, assets = pr_assets res,
                   initialAssets = pr_initialAssets res\<rparr>))). P ev"
    by simp
qed

lemma transformFresh_Fresh:
  "fst (transformFresh w fuel req s ce) = Returned x \<Longrightarrow> \<exists>e. x = Fresh e"
  by (auto simp: transformFresh_def fst_bindM split: outcome.splits)

lemma summarizeRequest_no_events [simp]: "snd (summarizeRequest w req) = []"
  by (simp add: summarizeRequest_def split: option.splits prod.splits)

lemma transformServe_uncached:
  assumes "code req \<noteq> None \<or> opt_cache opts = Some False"
  shows "transformServe w opts fuel req cache =
           bindM (emit (EvReport (req_filePath req))) (\<lambda>_.
           bindM (summarizeRequest w req) (\<lambda>s. transformFresh w fuel req s None))"
  using assms by (auto simp: transformServe_def)

lemma isCacheGet_simps [simp]:
  "isCacheGet (EvCacheGet k)" "\<not> isCacheGet (EvReport p)" "\<not> isCacheGet (EvCacheSet k)"
  "\<not> isCacheGet (EvGetTransformers p)" "\<not> isCacheGet (EvHook t h)"
  "\<not> isCacheGet (EvCommit a)" "\<not> isCacheGet (EvRunPipeline pl)"
  by (simp_all add: isCacheGet_def)

lemma transform_events:
  "snd (fst (transform w opts fuel req cache)) =
     snd (transformServe w opts fuel req cache) @
       (case fst (transformServe w opts fuel req cache) of
          Returned (Fresh e) \<Rightarrow> [EvCacheSet (reqCacheKey w req)] | _ \<Rightarrow> [])"
  by (simp add: transform_def split: prod.splits outcome.splits served.splits)

lemma transform_outcome:
  "fst (fst (transform w opts fuel req cache)) =
     (case fst (transformServe w opts fuel req cache) of
        Returned (FromCache e) \<Rightarrow> Returned e
      | Returned (Fresh e) \<Rightarrow> Returned e
      | Thrown x \<Rightarrow> Thrown x
      | Timeout \<Rightarrow> Timeout)"
  by (simp add: transform_def split: prod.splits outcome.splits served.splits)

lemma transformServe_FromCache:
  assumes "fst (transformServe w opts fuel req cache) = Returned (FromCache e)"
  shows "cache (reqCacheKey w req) = Some e \<and> code req = None \<and> opt_cache opts \<noteq> Some False"
proof (cases "opt_cache opts \<noteq> Some False \<and> code req = None")
  case True
  then show ?thesis
    using assms
    by (auto simp: transformServe_def fst_bindM bindM_emit
        split: outcome.splits option.splits if_splits dest: transformFresh_Fresh)
next
  case False
  then have "code req \<noteq> None \<or> opt_cache opts = Some False" by auto
  from transformServe_uncached [OF this, of w fuel cache] show ?thesis using assms
    by (auto simp: fst_bindM split: outcome.splits dest: transformFresh_Fresh)
qed

lemma transform_cache_after:
  "snd (transform w opts fuel req cache) =
     (case fst (transformServe w opts fuel req cache) of
        Returned (Fresh e) \<Rightarrow> cache(reqCacheKey w req \<mapsto> e)
      | _ \<Rightarrow> cache)"
  by (simp add: transform_def split: prod.splits outcome.splits served.splits)

text \<open>
  Claim C4, as amended. Whenever \<^verbatim>\<open>transform\<close> returns an entry, for a file request or
  for an inline-code request, the persistent cache afterwards holds that entry under the
  key \<^verbatim>\<open>md5FromString(filePath + JSON.stringify(env))\<close> and is as before at every other
  key; for an inline-code request (\<^verbatim>\<open>code != null\<close>) the entry is written by
  \<^verbatim>\<open>cache.set\<close>, so the cache after is the cache before updated at that key.
\<close>

theorem transform_persists_entry:
  assumes "fst (fst (transform w opts fuel req cache)) = Returned e"
  shows "snd (transform w opts fuel req cache)
           (md5FromString w (req_filePath req @ stringify w (req_env req))) = Some e
         \<and> (\<forall>k. k \<noteq> md5FromString w (req_filePath req @ stringify w (req_env req))
               \<longrightarrow> snd (transform w opts fuel req cache) k = cache k)
         \<and> (code req \<noteq> None \<longrightarrow>
              snd (transform w opts fuel req cache) =
                cache(md5FromString w (req_filePath req @ stringify w (req_env req)) \<mapsto> e))"
proof (cases "fst (transformServe w opts fuel req cache)")
  case (Returned sv)
  show ?thesis
  proof (cases sv)
    case (FromCache e')
    with Returned have hit: "fst (transformServe w opts fuel req cache) = Returned (FromCache e')"
      by simp
    then have "e' = e" using assms by (simp add: transform_outcome)
    moreover note transformServe_FromCache [OF hit]
    moreover have "snd (transform w opts fuel req cache) = cache"
      using hit by (simp add: transform_cache_after)
    ultimately show ?thesis by (simp add: reqCacheKey_def)
  next
    case (Fresh e')
    with Returned have fresh: "fst (transformServe w opts fuel req cache) = Returned (Fresh e')"
      by simp
    then have "e' = e" using assms by (simp add: transform_outcome)
    moreover have "snd (transform w opts fuel req cache) = cache(reqCacheKey w req \<mapsto> e')"
      using fresh by (simp add: transform_cache_after)
    ultimately show ?thesis by (simp add: reqCacheKey_def)
  qed
next
  case (Thrown x)
  then show ?thesis using assms by (simp add: transform_outcome)
next
  case Timeout
  then show ?thesis using assms by (simp add: transform_outcome)
qed

text \<open>
  The file request for \<^verbatim>\<open>a.md\<close> on an empty cache: the entry it returns is then in the
  cache.
\<close>

theorem transform_persists_entry_witness:
  "fst (fst (transform demoWorld demoOptions 5 (demoRequest ''a.md'') Map.empty))
     = Returned demoMdEntry
   \<and> snd (transform demoWorld demoOptions 5 (demoRequest ''a.md'') Map.empty)
       (md5FromString demoWorld (''a.md'' @ stringify demoWorld ''browser'')) = Some demoMdEntry"
proof -
  have h: "fst (fst (transform demoWorld demoOptions 5 (demoRequest ''a.md'') Map.empty))
             = Returned demoMdEntry"
    by code_simp
  show ?thesis using transform_persists_entry [OF h] h by simp
qed

text \<open>
  Claim C4 as stated fails for inline code: the request for \<^verbatim>\<open>a.md\<close> with the code
  \<^verbatim>\<open># hi\<close>, on an empty cache, returns an entry and the cache holds it afterwards.
\<close>

theorem inline_request_persisted_counterexample:
  "code demoInlineRequest = Some ''# hi''
   \<and> fst (fst (transform demoWorld demoOptions 5 demoInlineRequest Map.empty))
       = Returned demoInlineEntry
   \<and> Map.empty (reqCacheKey demoWorld demoInlineRequest) = (None :: CacheEntry option)
   \<and> snd (transform demoWorld demoOptions 5 demoInlineRequest Map.empty)
       (reqCacheKey demoWorld demoInlineRequest) = Some demoInlineEntry"
proof -
  have 1: "code demoInlineRequest = Some ''# hi''"
    by (simp add: demoInlineRequest_def)
  have 2: "fst (fst (transform demoWorld demoOptions 5 demoInlineRequest Map.empty))
             = Returned demoInlineEntry"
    by code_simp
  have 3: "snd (transform demoWorld demoOptions 5 demoInlineRequest Map.empty)
             (reqCacheKey demoWorld demoInlineRequest) = Some demoInlineEntry"
    by code_simp
  show ?thesis using 1 2 3 by simp
qed

text \<open>
  Claim C5. When the request carries code (\<^verbatim>\<open>code != null\<close>) or the cache is switched off
  (\<^verbatim>\<open>options.cache === false\<close>), \<^verbatim>\<open>transform\<close> never calls \<^verbatim>\<open>cache.get\<close>; it is the
  progress report, \<^verbatim>\<open>summarizeRequest\<close> and a fresh run with no cache entry, so what it
  returns is never the early \<^verbatim>\<open>return cacheEntry\<close>, and its outcome and its calls are
  the same whatever the cache holds. (Hence a lookup happens only when
  \<^verbatim>\<open>options.cache !== false\<close> and \<^verbatim>\<open>code == null\<close>.)
\<close>

theorem no_cache_lookup:
  assumes "code req \<noteq> None \<or> opt_cache opts = Some False"
  shows "\<not> list_ex isCacheGet (snd (fst (transform w opts fuel req cache)))
         \<and> transformServe w opts fuel req cache =
             bindM (emit (EvReport (req_filePath req))) (\<lambda>_.
             bindM (summarizeRequest w req) (\<lambda>s. transformFresh w fuel req s None))
         \<and> (\<forall>e. fst (transformServe w opts fuel req cache) \<noteq> Returned (FromCache e))
         \<and> fst (transform w opts fuel req cache) = fst (transform w opts fuel req cache')"
proof -
  note eq = transformServe_uncached [OF assms]
  have fresh: "\<And>s. \<forall>ev\<in>set (snd (transformFresh w fuel req s None)). \<not> isCacheGet ev"
    by (rule transformFresh_events [where G = "\<lambda>_. True"]) simp_all
  have "\<forall>ev\<in>set (snd (transformServe w opts fuel req cache)). \<not> isCacheGet ev"
    unfolding eq by (intro bindM_events fresh) simp_all
  then have 1: "\<not> list_ex isCacheGet (snd (fst (transform w opts fuel req cache)))"
    by (auto simp: transform_events list_ex_iff split: outcome.splits served.splits)
  have 3: "\<forall>e. fst (transformServe w opts fuel req cache) \<noteq> Returned (FromCache e)"
    unfolding eq
    by (auto simp: fst_bindM split: outcome.splits dest: transformFresh_Fresh)
  have "transformServe w opts fuel req cache = transformServe w opts fuel req cache'"
    by (simp add: eq)
  then have 4: "fst (transform w opts fuel req cache) = fst (transform w opts fuel req cache')"
    by (simp add: transform_def split: prod.splits outcome.splits served.splits)
  show ?thesis using 1 eq 3 4 by blast
qed

text \<open>
  The example: the cache holds an entry for \<^verbatim>\<open>a.js\<close> whose hash is also the hash of the
  inline code \<^verbatim>\<open>x=1\<close>; the inline request for \<^verbatim>\<open>a.js\<close> does not look it up and does
  not return it.
\<close>

theorem no_cache_lookup_witness:
  "code demoInlineJs = Some ''x=1''
   \<and> demoCache (reqCacheKey demoWorld demoInlineJs) = Some demoEntry
   \<and> ce_hash demoEntry = s_hash (case fst (summarizeRequest demoWorld demoInlineJs) of Returned s \<Rightarrow> s)
   \<and> \<not> list_ex isCacheGet (snd (fst (transform demoWorld demoOptions 5 demoInlineJs demoCache)))
   \<and> fst (fst (transform demoWorld demoOptions 5 demoInlineJs demoCache)) \<noteq> Returned demoEntry
   \<and> fst (transform demoWorld demoOptions 5 demoInlineJs demoCache) =
       fst (transform demoWorld demoOptions 5 demoInlineJs Map.empty)"
proof -
  have h: "code demoInlineJs \<noteq> None \<or> opt_cache demoOptions = Some False"
    by (simp add: demoInlineJs_def)
  have 1: "code demoInlineJs = Some ''x=1''"
    by (simp add: demoInlineJs_def)
  have 2: "demoCache (reqCacheKey demoWorld demoInlineJs) = Some demoEntry"
    by (simp add: demoCache_def reqCacheKey_def demoInlineJs_def)
  have 3: "ce_hash demoEntry
             = s_hash (case fst (summarizeRequest demoWorld demoInlineJs) of Returned s \<Rightarrow> s)"
    by code_simp
  have 4: "fst (fst (transform demoWorld demoOptions 5 demoInlineJs demoCache)) \<noteq> Returned demoEntry"
    by code_simp
  from no_cache_lookup [OF h, of demoWorld 5 demoCache Map.empty]
  have 5: "\<not> list_ex isCacheGet (snd (fst (transform demoWorld demoOptions 5 demoInlineJs demoCache)))"
    and 6: "fst (transform demoWorld demoOptions 5 demoInlineJs demoCache) =
              fst (transform demoWorld demoOptions 5 demoInlineJs Map.empty)"
    by blast+
  show ?thesis by (intro conjI 1 2 3 4 5 6)
qed

subsection \<open>Pipelines are never empty\<close>

lemma runPipeline_entries_nonempty:
  assumes "\<forall>p ps. getTransformers w p = Inr ps \<longrightarrow> ps \<noteq> []" and "pipeline po \<noteq> []"
  shows "\<forall>ev\<in>set (snd (runPipeline w n po)). ev \<noteq> EvRunPipeline []"
proof -
  have tail: "\<And>pl :: nat list. pl \<noteq> [] \<Longrightarrow> length pl \<noteq> 1 \<Longrightarrow> tl pl \<noteq> []"
    by (case_tac pl) auto
  show ?thesis
    using pipeline_events(1) [of "\<lambda>ev. ev \<noteq> EvRunPipeline []" "\<lambda>pl. pl \<noteq> []" w po n] assms tail
    by simp
qed

lemma runPipeline_empty:
  "pipeline po = [] \<Longrightarrow>
   runPipeline w (Suc n) po =
     (Thrown (TypeError ''Cannot read property getConfig of undefined''), [EvRunPipeline []])"
  by (simp add: runPipeline.simps bindM_emit runTransform_def headOf_def)

lemma transformServe_events:
  assumes "\<And>s ce. \<forall>ev\<in>set (snd (transformFresh w fuel req s ce)). P ev"
    and "\<And>p. P (EvReport p)" and "\<And>k. P (EvCacheGet k)"
  shows "\<forall>ev\<in>set (snd (transformServe w opts fuel req cache)). P ev"
  unfolding transformServe_def
  by (intro bindM_events)
     (auto simp: assms snd_bindM split: outcome.splits option.splits if_splits)

text \<open>
  Claim C9. If \<^verbatim>\<open>getTransformers\<close> never returns an empty list, then every pipeline with
  which \<^verbatim>\<open>runPipeline\<close> is entered in the course of a \<^verbatim>\<open>transform\<close> is non-empty, so
  that its head \<^verbatim>\<open>pipeline[0]\<close> exists; the same holds of every call below a call of
  \<^verbatim>\<open>runPipeline\<close> on a non-empty pipeline (the tail is taken only of a pipeline of
  length other than 1, a jump goes to a list \<^verbatim>\<open>getTransformers\<close> returned). Entered with
  an empty pipeline, \<^verbatim>\<open>runPipeline\<close> reads \<^verbatim>\<open>undefined\<close> as the transformer and throws a
  TypeError.
\<close>

theorem pipelines_nonempty:
  assumes "\<forall>p ps. getTransformers w p = Inr ps \<longrightarrow> ps \<noteq> []"
  shows "(\<forall>pl. EvRunPipeline pl \<in> set (snd (fst (transform w opts fuel req cache)))
            \<longrightarrow> pl \<noteq> [] \<and> headOf pl = Some (hd pl))
         \<and> (pipeline po \<noteq> [] \<longrightarrow>
              (\<forall>pl. EvRunPipeline pl \<in> set (snd (runPipeline w n po))
                 \<longrightarrow> pl \<noteq> [] \<and> headOf pl = Some (hd pl)))
         \<and> (pipeline po = [] \<longrightarrow>
              headOf (pipeline po) = None
              \<and> runPipeline w (Suc n) po =
                  (Thrown (TypeError ''Cannot read property getConfig of undefined''),
                   [EvRunPipeline []]))"
proof -
  have hd: "\<And>pl :: nat list. pl \<noteq> [] \<Longrightarrow> headOf pl = Some (hd pl)"
    by (case_tac pl) (simp_all add: headOf_def)
  have tail: "\<And>pl :: nat list. pl \<noteq> [] \<Longrightarrow> length pl \<noteq> 1 \<Longrightarrow> tl pl \<noteq> []"
    by (case_tac pl) auto
  have fresh: "\<And>s ce. \<forall>ev\<in>set (snd (transformFresh w fuel req s ce)). ev \<noteq> EvRunPipeline []"
    by (rule transformFresh_events [where G = "\<lambda>pl. pl \<noteq> []"]) (simp_all add: assms tail)
  have "\<forall>ev\<in>set (snd (transformServe w opts fuel req cache)). ev \<noteq> EvRunPipeline []"
    by (rule transformServe_events) (simp_all add: fresh)
  then have "\<forall>ev\<in>set (snd (fst (transform w opts fuel req cache))). ev \<noteq> EvRunPipeline []"
    by (auto simp: transform_events split: outcome.splits served.splits)
  then have 1: "\<forall>pl. EvRunPipeline pl \<in> set (snd (fst (transform w opts fuel req cache)))
                  \<longrightarrow> pl \<noteq> [] \<and> headOf pl = Some (hd pl)"
    using hd by blast
  have 2: "pipeline po \<noteq> [] \<longrightarrow>
             (\<forall>pl. EvRunPipeline pl \<in> set (snd (runPipeline w n po))
                \<longrightarrow> pl \<noteq> [] \<and> headOf pl = Some (hd pl))"
    using runPipeline_entries_nonempty [OF assms, of po n] hd by blast
  have 3: "pipeline po = [] \<longrightarrow>
             headOf (pipeline po) = None
             \<and> runPipeline w (Suc n) po =
                 (Thrown (TypeError ''Cannot read property getConfig of undefined''),
                  [EvRunPipeline []])"
    by (auto simp: headOf_def runPipeline_empty)
  show ?thesis using 1 2 3 by blast
qed

lemma demoGetTransformers_nonempty:
  "\<forall>p ps. getTransformers demoWorld p = Inr ps \<longrightarrow> ps \<noteq> []"
  by (auto simp: demoWorld_def demoGetTransformers_def split: if_splits)

text \<open>
  The example: the request for \<^verbatim>\<open>a.md\<close> enters \<^verbatim>\<open>runPipeline\<close> with the markdown
  pipeline and, after the jump, with the HTML pipeline.
\<close>

theorem pipelines_nonempty_witness:
  "List.map_filter (\<lambda>ev. case ev of EvRunPipeline pl \<Rightarrow> Some pl | _ \<Rightarrow> None)
      (snd (fst (transform demoWorld demoOptions 5 (demoRequest ''a.md'') Map.empty)))
     = [[2], [3]]
   \<and> EvRunPipeline [] \<notin> set (snd (fst (transform demoWorld demoOptions 5 (demoRequest ''a.md'') Map.empty)))
   \<and> headOf [3] = Some 3
   \<and> fst (runPipeline demoWorld (Suc 0)
        \<lparr>input = demoAsset, originalPipeline = None, pipeline = [], cacheEntry = None,
         previousGenerate = None\<rparr>) = Thrown (TypeError ''Cannot read property getConfig of undefined'')"
proof -
  have 1: "List.map_filter (\<lambda>ev. case ev of EvRunPipeline pl \<Rightarrow> Some pl | _ \<Rightarrow> None)
      (snd (fst (transform demoWorld demoOptions 5 (demoRequest ''a.md'') Map.empty)))
     = [[2], [3]]"
    by code_simp
  note inst = pipelines_nonempty [OF demoGetTransformers_nonempty,
      of demoOptions 5 "demoRequest ''a.md''" Map.empty
        "\<lparr>input = demoAsset, originalPipeline = None, pipeline = [], cacheEntry = None,
          previousGenerate = None\<rparr>" 0]
  have 2: "EvRunPipeline [] \<notin> set (snd (fst (transform demoWorld demoOptions 5 (demoRequest ''a.md'') Map.empty)))"
    using inst by blast
  have 3: "headOf [3] = Some (3::nat)"
    by (simp add: headOf_def)
  have 4: "fst (runPipeline demoWorld (Suc 0)
        \<lparr>input = demoAsset, originalPipeline = None, pipeline = [], cacheEntry = None,
         previousGenerate = None\<rparr>) = Thrown (TypeError ''Cannot read property getConfig of undefined'')"
    using inst by simp
  show ?thesis by (intro conjI 1 2 3 4)
qed

subsection \<open>AST reconciliation in runTransform\<close>

lemma callTransform_eq:
  "callTransform w t config x =
     (case transform_hook (plugins w t) x config of
        Inl e \<Rightarrow> Thrown e
      | Inr outs \<Rightarrow>
          Returned \<lparr>results = normalizeAssets outs, tr_generate = (t, config),
                    tr_postProcess = (t, config, x), tr_input = x\<rparr>,
      [EvHook t TransformHook])"
  by (simp add: callTransform_def bindM_emit bindM_Returned lift_def ret_def throw_def
      split: sum.splits)

lemma cannotReuse_eq:
  "cannotReuse w t a =
     (Returned (\<forall>can. canReuseAST (plugins w t) = Some can \<longrightarrow> \<not> can a),
      case canReuseAST (plugins w t) of None \<Rightarrow> [] | Some can \<Rightarrow> [EvHook t CanReuseAST])"
  by (simp add: cannotReuse_def bindM_emit ret_def split: option.splits)

lemma callGenerate_eq:
  "callGenerate w (tp, cfgp) a =
     (case generate (plugins w tp) of
        None \<Rightarrow> (Thrown MissingGenerate, [])
      | Some gen \<Rightarrow>
          (case gen a cfgp of Inl e \<Rightarrow> Thrown e | Inr out \<Rightarrow> Returned out,
           [EvHook tp Generate]))"
  by (simp add: callGenerate_def bindM_emit lift_def ret_def throw_def
      split: option.splits sum.splits)

text \<open>
  Claim C3. In a \<^verbatim>\<open>runTransform\<close> step whose config load has returned (with the events
  \<open>ev0\<close>):

  \<^item> if the input carries an AST that the transformer cannot reuse (it has no
    \<^verbatim>\<open>canReuseAST\<close>, or \<^verbatim>\<open>canReuseAST\<close> returns false) and there is a
    \<^verbatim>\<open>previousGenerate\<close> (the closure of a transformer \<open>tp\<close>; here \<open>tp\<close> has a
    \<^verbatim>\<open>generate\<close> hook, the closure of one that has none throws), then that hook is
    called; when it returns \<open>out\<close>, content and map are overwritten with
    \<open>out\<close> and the AST is dropped, and then, the asset having no AST, the \<^verbatim>\<open>parse\<close> hook
    is called if there is one and its result becomes the AST; when \<^verbatim>\<open>generate\<close> throws,
    so does the step;
  \<^item> if the input has no AST and the transformer has \<^verbatim>\<open>parse\<close>, the hook is called and
    its result becomes the AST;
  \<^item> if the input carries an AST and \<^verbatim>\<open>canReuseAST\<close> returns true, the asset reaches the
    \<^verbatim>\<open>transform\<close> hook as it is, and no \<^verbatim>\<open>generate\<close> and no \<^verbatim>\<open>parse\<close> is called.

  The event list of each case names every hook the step calls.
\<close>

theorem runTransform_ast_reconciliation:
  assumes "loadConfig w t inp = (Returned config, ev0)"
  shows
    "(\<forall>a tp cfgp gen.
        ast inp = Some a
        \<and> (\<forall>can. canReuseAST (plugins w t) = Some can \<longrightarrow> \<not> can a)
        \<and> generate (plugins w tp) = Some gen
        \<longrightarrow>
        (let evs = ev0
               @ (case canReuseAST (plugins w t) of None \<Rightarrow> [] | Some can \<Rightarrow> [EvHook t CanReuseAST])
               @ [EvHook tp Generate]
         in (\<forall>e. gen inp cfgp = Inl e \<longrightarrow>
               runTransform w inp (Some t) (Some (tp, cfgp)) = (Thrown e, evs))
          \<and> (\<forall>out. gen inp cfgp = Inr out \<longrightarrow>
               (let inp1 = inp\<lparr>content := g_code out, map_src := g_map out, ast := None\<rparr>
                in (parse (plugins w t) = None \<longrightarrow>
                      runTransform w inp (Some t) (Some (tp, cfgp)) =
                        (fst (callTransform w t config inp1), evs @ [EvHook t TransformHook]))
                 \<and> (\<forall>p a'. parse (plugins w t) = Some p \<and> p inp1 config = Inr a' \<longrightarrow>
                      runTransform w inp (Some t) (Some (tp, cfgp)) =
                        (fst (callTransform w t config (inp1\<lparr>ast := a'\<rparr>)),
                         evs @ [EvHook t Parse, EvHook t TransformHook]))))))
     \<and> (\<forall>p a'. ast inp = None \<and> parse (plugins w t) = Some p \<and> p inp config = Inr a' \<longrightarrow>
          runTransform w inp (Some t) pg =
            (fst (callTransform w t config (inp\<lparr>ast := a'\<rparr>)),
             ev0 @ [EvHook t Parse, EvHook t TransformHook]))
     \<and> (\<forall>a can. ast inp = Some a \<and> canReuseAST (plugins w t) = Some can \<and> can a \<longrightarrow>
          runTransform w inp (Some t) pg =
            (fst (callTransform w t config inp),
             ev0 @ [EvHook t CanReuseAST, EvHook t TransformHook]))
     \<and> (\<forall>x. callTransform w t config x =
          (case transform_hook (plugins w t) x config of
             Inl e \<Rightarrow> Thrown e
           | Inr outs \<Rightarrow>
               Returned \<lparr>results = normalizeAssets outs, tr_generate = (t, config),
                         tr_postProcess = (t, config, x), tr_input = x\<rparr>,
           [EvHook t TransformHook]))"
proof -
  have run: "runTransform w inp (Some t) pg' =
               (case regenerate w t inp pg' of
                  (Returned inp1, es1) \<Rightarrow>
                    (case parseIfNeeded w t config inp1 of
                       (Returned inp2, es2) \<Rightarrow>
                         (fst (callTransform w t config inp2),
                          ev0 @ es1 @ es2 @ [EvHook t TransformHook])
                     | (Thrown e, es2) \<Rightarrow> (Thrown e, ev0 @ es1 @ es2)
                     | (Timeout, es2) \<Rightarrow> (Timeout, ev0 @ es1 @ es2))
                | (Thrown e, es1) \<Rightarrow> (Thrown e, ev0 @ es1)
                | (Timeout, es1) \<Rightarrow> (Timeout, ev0 @ es1))" for pg'
    using assms
    by (simp add: runTransform_def bindM_Returned fst_bindM snd_bindM
        split: prod.splits outcome.splits)
  have A: "ast inp = Some a \<Longrightarrow> (\<forall>can. canReuseAST (plugins w t) = Some can \<longrightarrow> \<not> can a)
           \<Longrightarrow> generate (plugins w tp) = Some gen \<Longrightarrow>
           regenerate w t inp (Some (tp, cfgp)) =
             (case gen inp cfgp of
                Inl e \<Rightarrow> Thrown e
              | Inr out \<Rightarrow>
                  Returned (inp\<lparr>content := g_code out, map_src := g_map out, ast := None\<rparr>),
              (case canReuseAST (plugins w t) of None \<Rightarrow> [] | Some can \<Rightarrow> [EvHook t CanReuseAST])
              @ [EvHook tp Generate])" for a tp cfgp gen
    by (auto simp: regenerate_def cannotReuse_eq callGenerate_eq bindM_Returned ret_def
        split: sum.splits)
  have B: "ast inp = None \<Longrightarrow> regenerate w t inp pg = (Returned inp, [])"
    by (simp add: regenerate_def ret_def)
  have C: "ast inp = Some a \<Longrightarrow> canReuseAST (plugins w t) = Some can \<Longrightarrow> can a \<Longrightarrow>
           regenerate w t inp pg = (Returned inp, [EvHook t CanReuseAST])" for a can
    by (simp add: regenerate_def cannotReuse_eq bindM_Returned)
  have P0: "ast x = None \<Longrightarrow> parse (plugins w t) = None \<Longrightarrow>
            parseIfNeeded w t config x = (Returned x, [])" for x
    by (simp add: parseIfNeeded_def ret_def)
  have P1: "ast x = None \<Longrightarrow> parse (plugins w t) = Some p \<Longrightarrow> p x config = Inr a' \<Longrightarrow>
            parseIfNeeded w t config x = (Returned (x\<lparr>ast := a'\<rparr>), [EvHook t Parse])" for x p a'
    by (simp add: parseIfNeeded_def bindM_emit lift_def)
  have P2: "ast x = Some a \<Longrightarrow> parseIfNeeded w t config x = (Returned x, [])" for x a
    by (simp add: parseIfNeeded_def ret_def)
  have 1: "\<forall>a tp cfgp gen.
        ast inp = Some a
        \<and> (\<forall>can. canReuseAST (plugins w t) = Some can \<longrightarrow> \<not> can a)
        \<and> generate (plugins w tp) = Some gen
        \<longrightarrow>
        (let evs = ev0
               @ (case canReuseAST (plugins w t) of None \<Rightarrow> [] | Some can \<Rightarrow> [EvHook t CanReuseAST])
               @ [EvHook tp Generate]
         in (\<forall>e. gen inp cfgp = Inl e \<longrightarrow>
               runTransform w inp (Some t) (Some (tp, cfgp)) = (Thrown e, evs))
          \<and> (\<forall>out. gen inp cfgp = Inr out \<longrightarrow>
               (let inp1 = inp\<lparr>content := g_code out, map_src := g_map out, ast := None\<rparr>
                in (parse (plugins w t) = None \<longrightarrow>
                      runTransform w inp (Some t) (Some (tp, cfgp)) =
                        (fst (callTransform w t config inp1), evs @ [EvHook t TransformHook]))
                 \<and> (\<forall>p a'. parse (plugins w t) = Some p \<and> p inp1 config = Inr a' \<longrightarrow>
                      runTransform w inp (Some t) (Some (tp, cfgp)) =
                        (fst (callTransform w t config (inp1\<lparr>ast := a'\<rparr>)),
                         evs @ [EvHook t Parse, EvHook t TransformHook])))))"
    by (auto simp: run A P0 P1 Let_def)
  have 2: "\<forall>p a'. ast inp = None \<and> parse (plugins w t) = Some p \<and> p inp config = Inr a' \<longrightarrow>
          runTransform w inp (Some t) pg =
            (fst (callTransform w t config (inp\<lparr>ast := a'\<rparr>)),
             ev0 @ [EvHook t Parse, EvHook t TransformHook])"
    by (auto simp: run B P1)
  have 3: "\<forall>a can. ast inp = Some a \<and> canReuseAST (plugins w t) = Some can \<and> can a \<longrightarrow>
          runTransform w inp (Some t) pg =
            (fst (callTransform w t config inp),
             ev0 @ [EvHook t CanReuseAST, EvHook t TransformHook])"
    by (auto simp: run C P2)
  show ?thesis
    using 1 2 3 callTransform_eq by blast
qed


text \<open>
  The example: the second transformer of the \<^verbatim>\<open>a.js\<close> pipeline reuses only the AST 20.
  Handed the AST 10 it has the first transformer generate, then parses; handed the AST 20
  it calls neither.
\<close>

theorem runTransform_ast_reconciliation_witness:
  "loadConfig demoWorld 1 demoAstAsset = (Returned None, [])
   \<and> runTransform demoWorld demoAstAsset (Some 1) (Some (0, Some 1)) =
       (fst (callTransform demoWorld 1 None
               (demoAstAsset\<lparr>content := Text ''y=1'', map_src := None, ast := Some 20\<rparr>)),
        [EvHook 1 CanReuseAST, EvHook 0 Generate, EvHook 1 Parse, EvHook 1 TransformHook])
   \<and> runTransform demoWorld (demoAstAsset\<lparr>ast := Some 20\<rparr>) (Some 1) (Some (0, Some 1)) =
       (fst (callTransform demoWorld 1 None (demoAstAsset\<lparr>ast := Some 20\<rparr>)),
        [EvHook 1 CanReuseAST, EvHook 1 TransformHook])"
proof -
  have h1: "loadConfig demoWorld 1 demoAstAsset = (Returned None, [])"
    by (simp add: loadConfig_def demoWorld_def demoPlugins_def pluginQ_def ret_def)
  have h2: "loadConfig demoWorld 1 (demoAstAsset\<lparr>ast := Some 20\<rparr>) = (Returned None, [])"
    by (simp add: loadConfig_def demoWorld_def demoPlugins_def pluginQ_def ret_def)
  have 1: "runTransform demoWorld demoAstAsset (Some 1) (Some (0, Some 1)) =
       (fst (callTransform demoWorld 1 None
               (demoAstAsset\<lparr>content := Text ''y=1'', map_src := None, ast := Some 20\<rparr>)),
        [EvHook 1 CanReuseAST, EvHook 0 Generate, EvHook 1 Parse, EvHook 1 TransformHook])"
    using runTransform_ast_reconciliation [OF h1, THEN conjunct1, rule_format,
        of 10 0 "\<lambda>a c. Inr \<lparr>g_code = Text ''y=1'', g_map = None\<rparr>" "Some 1"]
    by (simp add: Let_def demoWorld_def demoPlugins_def pluginQ_def pluginP_def demoAstAsset_def)
  have 2: "runTransform demoWorld (demoAstAsset\<lparr>ast := Some 20\<rparr>) (Some 1) (Some (0, Some 1)) =
       (fst (callTransform demoWorld 1 None (demoAstAsset\<lparr>ast := Some 20\<rparr>)),
        [EvHook 1 CanReuseAST, EvHook 1 TransformHook])"
    using runTransform_ast_reconciliation [OF h2, THEN conjunct2, THEN conjunct2, THEN conjunct1,
        rule_format, of 20 "\<lambda>a. a = 20" "Some (0, Some 1)"]
    by (simp add: demoWorld_def demoPlugins_def pluginQ_def)
  show ?thesis by (intro conjI h1 1 2)
qed

subsection \<open>A missing generate hook\<close>

lemma runChildren_append:
  "runChildren w n fr (rs1 @ rs2) as =
     bindM (runChildren w n fr rs1 as) (\<lambda>as1. runChildren w n fr rs2 as1)"
proof (induction rs1 arbitrary: as)
  case Nil
  show ?case by (simp add: runChildren.simps)
next
  case (Cons r rs1)
  have assoc: "\<And>(m :: InternalAsset list M) f (g :: InternalAsset list \<Rightarrow> InternalAsset list M).
        bindM (bindM m f) g = bindM m (\<lambda>x. bindM (f x) g)"
    by (auto simp: bindM_def split: prod.splits outcome.splits)
  show ?case by (simp add: runChildren.simps Cons.IH assoc)
qed


lemma bindM_fst_Thrown: "fst m = Thrown e \<Longrightarrow> fst (bindM m f) = Thrown e"
  by (simp add: fst_bindM)

lemma bindM_fst_Returned: "fst m = Returned x \<Longrightarrow> fst (bindM m f) = fst (f x)"
  by (simp add: fst_bindM)

lemma bindM_ReturnedD:
  "fst (bindM m f) = Returned y \<Longrightarrow> \<exists>x. fst m = Returned x \<and> fst (f x) = Returned y"
  by (auto simp: fst_bindM split: outcome.splits)

lemma runTransform_closures:
  assumes "runTransform w inp (Some t) pg = (Returned rt, es)"
  shows "tr_generate rt = (t, snd (tr_generate rt))
         \<and> tr_postProcess rt = (t, snd (tr_generate rt), tr_input rt)"
proof -
  from assms have "fst (runTransform w inp (Some t) pg) = Returned rt"
    by simp
  then obtain config inp2 where "fst (callTransform w t config inp2) = Returned rt"
    unfolding runTransform_def option.case
    by (blast dest: bindM_ReturnedD)
  then show ?thesis
    by (auto simp: callTransform_def fst_bindM lift_def ret_def throw_def
        split: outcome.splits sum.splits)
qed

lemma runPipeline_transform_fails:
  assumes "fst (runTransform w (input po) (headOf (pipeline po)) (previousGenerate po)) = Thrown e"
  shows "fst (runPipeline w (Suc n) po) = Thrown e"
  unfolding runPipeline.simps
  by (simp add: bindM_fst_Returned bindM_fst_Thrown [OF assms])

lemma runPipeline_children_fail:
  assumes "fst (runTransform w (input po) (headOf (pipeline po)) (previousGenerate po)) = Returned rt"
    and "fst (runChildren w n
                \<lparr>fr_input = tr_input rt, fr_inputType = type (input po),
                 fr_pipeline = pipeline po,
                 fr_originalPipeline =
                   (case originalPipeline po of None \<Rightarrow> pipeline po | Some op \<Rightarrow> op),
                 fr_cacheEntry = cacheEntry po, fr_generate = tr_generate rt\<rparr>
                (results rt) []) = Thrown e"
  shows "fst (runPipeline w (Suc n) po) = Thrown e"
  unfolding runPipeline.simps
  by (simp add: bindM_fst_Returned [OF assms(1)] bindM_fst_Thrown [OF assms(2)]
      bindM_fst_Returned [of "emit ev" for ev])

lemma runChild_finalize_fails:
  assumes "fst (tryCache w fr (createChildAsset w (fr_input fr) result)) = Returned None"
    and "fst (nextPipelineFor w fr result) = Returned np"
    and "isEqualPipeline (fr_originalPipeline fr) np" and "length (fr_pipeline fr) = 1"
    and "fst (finalize w (createChildAsset w (fr_input fr) result) (fr_generate fr)) = Thrown e"
  shows "fst (runChild w n fr result) = Thrown e"
  using assms by (simp add: runChild.simps fst_bindM)

lemma runChild_tail_fails:
  assumes "fst (tryCache w fr (createChildAsset w (fr_input fr) result)) = Returned None"
    and "fst (nextPipelineFor w fr result) = Returned np"
    and "isEqualPipeline (fr_originalPipeline fr) np" and "length (fr_pipeline fr) \<noteq> 1"
    and "fst (runPipeline w n
                \<lparr>input = createChildAsset w (fr_input fr) result,
                 originalPipeline = Some (fr_originalPipeline fr),
                 pipeline = tl (fr_pipeline fr),
                 cacheEntry = None,
                 previousGenerate = Some (fr_generate fr)\<rparr>) = Thrown e"
  shows "fst (runChild w n fr result) = Thrown e"
  using assms by (simp add: runChild.simps fst_bindM)

lemma runChild_jump_fails:
  assumes "fst (tryCache w fr (createChildAsset w (fr_input fr) result)) = Returned None"
    and "fst (nextPipelineFor w fr result) = Returned np"
    and "\<not> isEqualPipeline (fr_originalPipeline fr) np"
    and "fst (runPipeline w n
                \<lparr>input = createChildAsset w (fr_input fr) result,
                 originalPipeline = None,
                 pipeline = np,
                 cacheEntry = None,
                 previousGenerate = Some (fr_generate fr)\<rparr>) = Thrown e"
  shows "fst (runChild w n fr result) = Thrown e"
  using assms by (simp add: runChild.simps fst_bindM)

lemma finalize_missing_generate:
  "ast asset = Some a \<Longrightarrow> generate (plugins w tg) = None \<Longrightarrow>
   finalize w asset (tg, cfg) = (Thrown MissingGenerate, [])"
  by (simp add: finalize_def callGenerate_eq)

lemma runTransform_missing_generate:
  assumes "loadConfig w t inp = (Returned config, ev0)" and "ast inp = Some a"
    and "\<forall>can. canReuseAST (plugins w t) = Some can \<longrightarrow> \<not> can a"
    and "generate (plugins w tg) = None"
  shows "runTransform w inp (Some t) (Some (tg, cfg)) =
           (Thrown MissingGenerate,
            ev0 @ (case canReuseAST (plugins w t) of None \<Rightarrow> []
                   | Some can \<Rightarrow> [EvHook t CanReuseAST]))"
proof -
  have "regenerate w t inp (Some (tg, cfg)) =
          (Thrown MissingGenerate,
           case canReuseAST (plugins w t) of None \<Rightarrow> [] | Some can \<Rightarrow> [EvHook t CanReuseAST])"
    using assms(2-4)
    by (auto simp: regenerate_def cannotReuse_eq callGenerate_eq bindM_Returned)
  then show ?thesis
    using assms(1) by (simp add: runTransform_def bindM_Returned)
qed

lemma runChildren_child_fails:
  assumes "runChildren w n fr before as = (Returned as1, es)"
    and "fst (runChild w n fr result) = Thrown e"
  shows "fst (runChildren w n fr (before @ result # rest) as) = Thrown e"
  using assms by (simp add: runChildren_append runChildren.simps fst_bindM bindM_Returned)

lemma transformFresh_pipeline_fails:
  assumes "getTransformers w (req_filePath req) = Inr pl"
    and "fst (runPipeline w fuel
                \<lparr>input = newInput w req s, originalPipeline = None, pipeline = pl,
                 cacheEntry = ce, previousGenerate = None\<rparr>) = Thrown e"
  shows "fst (transformFresh w fuel req s ce) = Thrown e"
  using assms by (simp add: transformFresh_def fst_bindM lift_def)

lemma transformServe_fresh:
  assumes s: "fst (summarizeRequest w req) = Returned s"
    and ce: "ce = (if opt_cache opts \<noteq> Some False \<and> code req = None
                   then cache (reqCacheKey w req) else None)"
    and stale: "\<And>en. ce = Some en \<Longrightarrow> ce_hash en = s_hash s \<Longrightarrow>
                  fst (checkCachedAssets w (assets en)) = Returned False"
  shows "fst (transformServe w opts fuel req cache) = fst (transformFresh w fuel req s ce)"
proof -
  have "fst (transformServe w opts fuel req cache) =
          fst (case ce of
                 None \<Rightarrow> transformFresh w fuel req s ce
               | Some e \<Rightarrow>
                   if ce_hash e = s_hash s then
                     bindM (checkCachedAssets w (assets e)) (\<lambda>ok.
                       if ok then ret (FromCache e) else transformFresh w fuel req s ce)
                   else transformFresh w fuel req s ce)"
    using s unfolding ce by (simp add: transformServe_def fst_bindM)
  also have "\<dots> = fst (transformFresh w fuel req s ce)"
    using stale by (cases ce) (auto simp: fst_bindM)
  finally show ?thesis .
qed

lemma transform_fresh_fails:
  assumes "fst (summarizeRequest w req) = Returned s"
    and "ce = (if opt_cache opts \<noteq> Some False \<and> code req = None
               then cache (reqCacheKey w req) else None)"
    and "\<And>en. ce = Some en \<Longrightarrow> ce_hash en = s_hash s \<Longrightarrow>
           fst (checkCachedAssets w (assets en)) = Returned False"
    and "fst (transformFresh w fuel req s ce) = Thrown e"
  shows "fst (fst (transform w opts fuel req cache)) = Thrown e
         \<and> snd (transform w opts fuel req cache) = cache"
  using transformServe_fresh [where cache = cache and fuel = fuel, OF assms(1-3)] assms(4)
  by (simp add: transform_outcome transform_cache_after)

lemma runPipeline_finalize_missing_generate:
  assumes rt: "fst (runTransform w (input po) (Some t) (previousGenerate po)) = Returned rt"
    and pl: "pipeline po = [t]"
    and fr: "fr = \<lparr>fr_input = tr_input rt, fr_inputType = type (input po),
                   fr_pipeline = pipeline po,
                   fr_originalPipeline =
                     (case originalPipeline po of None \<Rightarrow> pipeline po | Some op \<Rightarrow> op),
                   fr_cacheEntry = cacheEntry po, fr_generate = tr_generate rt\<rparr>"
    and res: "results rt = before @ result # rest"
    and bef: "fst (runChildren w n fr before []) = Returned acc"
    and nohit: "fst (tryCache w fr (createChildAsset w (tr_input rt) result)) = Returned None"
    and np: "fst (nextPipelineFor w fr result) = Returned np"
    and eq: "isEqualPipeline (fr_originalPipeline fr) np"
    and a: "ast (createChildAsset w (tr_input rt) result) = Some a"
    and nogen: "generate (plugins w t) = None"
  shows "fst (runPipeline w (Suc n) po) = Thrown MissingGenerate"
proof -
  obtain es where "runTransform w (input po) (Some t) (previousGenerate po) = (Returned rt, es)"
    using rt by (cases "runTransform w (input po) (Some t) (previousGenerate po)") auto
  from runTransform_closures [OF this] obtain cfg where g: "tr_generate rt = (t, cfg)"
    by blast
  have fin: "fst (finalize w (createChildAsset w (fr_input fr) result) (fr_generate fr))
               = Thrown MissingGenerate"
    using finalize_missing_generate [OF a nogen, of cfg] by (simp add: fr g)
  have len: "length (fr_pipeline fr) = 1" by (simp add: fr pl)
  have nohit': "fst (tryCache w fr (createChildAsset w (fr_input fr) result)) = Returned None"
    using nohit by (simp add: fr)
  have child: "fst (runChild w n fr result) = Thrown MissingGenerate"
    by (rule runChild_finalize_fails [OF nohit' np eq len fin])
  obtain es1 where "runChildren w n fr before [] = (Returned acc, es1)"
    using bef by (cases "runChildren w n fr before []") auto
  from runChildren_child_fails [OF this child, of rest]
  have "fst (runChildren w n fr (results rt) []) = Thrown MissingGenerate"
    by (simp add: res)
  moreover have "headOf (pipeline po) = Some t" by (simp add: pl headOf_def)
  ultimately show ?thesis
    using runPipeline_children_fail [of w po rt n MissingGenerate] rt by (simp add: fr)
qed

lemma runPipeline_regenerate_missing_generate:
  assumes rt: "fst (runTransform w (input po) (Some t) (previousGenerate po)) = Returned rt"
    and pl: "headOf (pipeline po) = Some t"
    and fr: "fr = \<lparr>fr_input = tr_input rt, fr_inputType = type (input po),
                   fr_pipeline = pipeline po,
                   fr_originalPipeline =
                     (case originalPipeline po of None \<Rightarrow> pipeline po | Some op \<Rightarrow> op),
                   fr_cacheEntry = cacheEntry po, fr_generate = tr_generate rt\<rparr>"
    and res: "results rt = before @ result # rest"
    and bef: "fst (runChildren w (Suc n) fr before []) = Returned acc"
    and nohit: "fst (tryCache w fr (createChildAsset w (tr_input rt) result)) = Returned None"
    and np: "fst (nextPipelineFor w fr result) = Returned np"
    and notlast: "isEqualPipeline (fr_originalPipeline fr) np \<longrightarrow> length (pipeline po) \<noteq> 1"
    and tn: "headOf (if isEqualPipeline (fr_originalPipeline fr) np
                     then tl (pipeline po) else np) = Some tn"
    and cfg: "fst (loadConfig w tn (createChildAsset w (tr_input rt) result)) = Returned config"
    and a: "ast (createChildAsset w (tr_input rt) result) = Some a"
    and noreuse: "\<forall>can. canReuseAST (plugins w tn) = Some can \<longrightarrow> \<not> can a"
    and nogen: "generate (plugins w t) = None"
  shows "fst (runPipeline w (Suc (Suc n)) po) = Thrown MissingGenerate"
proof -
  let ?child = "createChildAsset w (tr_input rt) result"
  obtain es where "runTransform w (input po) (Some t) (previousGenerate po) = (Returned rt, es)"
    using rt by (cases "runTransform w (input po) (Some t) (previousGenerate po)") auto
  from runTransform_closures [OF this] obtain c where g: "tr_generate rt = (t, c)"
    by blast
  obtain ev0 where "loadConfig w tn ?child = (Returned config, ev0)"
    using cfg by (cases "loadConfig w tn ?child") auto
  from runTransform_missing_generate [OF this a noreuse nogen, of c]
  have step: "fst (runTransform w ?child (Some tn) (Some (t, c))) = Thrown MissingGenerate"
    by simp
  have nohit': "fst (tryCache w fr (createChildAsset w (fr_input fr) result)) = Returned None"
    using nohit by (simp add: fr)
  have child: "fst (runChild w (Suc n) fr result) = Thrown MissingGenerate"
  proof (cases "isEqualPipeline (fr_originalPipeline fr) np")
    case True
    with notlast have len: "length (fr_pipeline fr) \<noteq> 1" by (simp add: fr)
    have "fst (runPipeline w (Suc n)
                \<lparr>input = createChildAsset w (fr_input fr) result,
                 originalPipeline = Some (fr_originalPipeline fr),
                 pipeline = tl (fr_pipeline fr),
                 cacheEntry = None,
                 previousGenerate = Some (fr_generate fr)\<rparr>) = Thrown MissingGenerate"
      using step tn True by (intro runPipeline_transform_fails) (simp add: fr g)
    from runChild_tail_fails [OF nohit' np True len this] show ?thesis .
  next
    case False
    have "fst (runPipeline w (Suc n)
                \<lparr>input = createChildAsset w (fr_input fr) result,
                 originalPipeline = None,
                 pipeline = np,
                 cacheEntry = None,
                 previousGenerate = Some (fr_generate fr)\<rparr>) = Thrown MissingGenerate"
      using step tn False by (intro runPipeline_transform_fails) (simp add: fr g)
    from runChild_jump_fails [OF nohit' np False this] show ?thesis .
  qed
  obtain es1 where "runChildren w (Suc n) fr before [] = (Returned acc, es1)"
    using bef by (cases "runChildren w (Suc n) fr before []") auto
  from runChildren_child_fails [OF this child, of rest]
  have "fst (runChildren w (Suc n) fr (results rt) []) = Thrown MissingGenerate"
    by (simp add: res)
  then show ?thesis
    using runPipeline_children_fail [of w po rt "Suc n" MissingGenerate] rt pl by (simp add: fr)
qed


lemma request_pipeline_fails:
  assumes "fst (summarizeRequest w req) = Returned s"
    and "ce = (if opt_cache opts \<noteq> Some False \<and> code req = None
               then cache (reqCacheKey w req) else None)"
    and "\<forall>en. ce = Some en \<and> ce_hash en = s_hash s \<longrightarrow>
           fst (checkCachedAssets w (assets en)) = Returned False"
    and "getTransformers w (req_filePath req) = Inr pl"
    and "fst (runPipeline w fuel
                \<lparr>input = newInput w req s, originalPipeline = None, pipeline = pl,
                 cacheEntry = ce, previousGenerate = None\<rparr>) = Thrown e"
  shows "fst (fst (transform w opts fuel req cache)) = Thrown e
         \<and> snd (transform w opts fuel req cache) = cache"
proof -
  have "fst (transformFresh w fuel req s ce) = Thrown e"
    by (rule transformFresh_pipeline_fails [OF assms(4,5)])
  with assms(3) show ?thesis
    by (intro transform_fresh_fails [where s = s and ce = ce] assms(1,2)) auto
qed

lemma request_finalize_missing_generate:
  assumes "fst (summarizeRequest w req) = Returned s"
    and "ce = (if opt_cache opts \<noteq> Some False \<and> code req = None
               then cache (reqCacheKey w req) else None)"
    and "\<forall>en. ce = Some en \<and> ce_hash en = s_hash s \<longrightarrow>
           fst (checkCachedAssets w (assets en)) = Returned False"
    and "getTransformers w (req_filePath req) = Inr [t]"
    and "fst (runTransform w (newInput w req s) (Some t) None) = Returned rt"
    and "fr = \<lparr>fr_input = tr_input rt, fr_inputType = type (newInput w req s),
               fr_pipeline = [t], fr_originalPipeline = [t],
               fr_cacheEntry = ce, fr_generate = tr_generate rt\<rparr>"
    and "results rt = before @ result # rest"
    and "fst (runChildren w n fr before []) = Returned acc"
    and "fst (tryCache w fr (createChildAsset w (tr_input rt) result)) = Returned None"
    and "fst (nextPipelineFor w fr result) = Returned np"
    and "isEqualPipeline [t] np"
    and "ast (createChildAsset w (tr_input rt) result) = Some a"
    and "generate (plugins w t) = None"
  shows "fst (fst (transform w opts (Suc n) req cache)) = Thrown MissingGenerate
         \<and> snd (transform w opts (Suc n) req cache) = cache"
proof -
  let ?po = "\<lparr>input = newInput w req s, originalPipeline = None, pipeline = [t],
              cacheEntry = ce, previousGenerate = None\<rparr>"
  have "fst (runPipeline w (Suc n) ?po) = Thrown MissingGenerate"
    using assms(5-13)
    by (intro runPipeline_finalize_missing_generate
          [where po = ?po and t = t and rt = rt and fr = fr and before = before
             and result = result and rest = rest and acc = acc and np = np and a = a])
       simp_all
  from request_pipeline_fails [where cache = cache and opts = opts, OF assms(1-4) this] show ?thesis .
qed

lemma request_regenerate_missing_generate:
  assumes "fst (summarizeRequest w req) = Returned s"
    and "ce = (if opt_cache opts \<noteq> Some False \<and> code req = None
               then cache (reqCacheKey w req) else None)"
    and "\<forall>en. ce = Some en \<and> ce_hash en = s_hash s \<longrightarrow>
           fst (checkCachedAssets w (assets en)) = Returned False"
    and "getTransformers w (req_filePath req) = Inr pl"
    and "headOf pl = Some t"
    and "fst (runTransform w (newInput w req s) (Some t) None) = Returned rt"
    and "fr = \<lparr>fr_input = tr_input rt, fr_inputType = type (newInput w req s),
               fr_pipeline = pl, fr_originalPipeline = pl,
               fr_cacheEntry = ce, fr_generate = tr_generate rt\<rparr>"
    and "results rt = before @ result # rest"
    and "fst (runChildren w (Suc n) fr before []) = Returned acc"
    and "fst (tryCache w fr (createChildAsset w (tr_input rt) result)) = Returned None"
    and "fst (nextPipelineFor w fr result) = Returned np"
    and "isEqualPipeline pl np \<longrightarrow> length pl \<noteq> 1"
    and "headOf (if isEqualPipeline pl np then tl pl else np) = Some tn"
    and "fst (loadConfig w tn (createChildAsset w (tr_input rt) result)) = Returned config"
    and "ast (createChildAsset w (tr_input rt) result) = Some a"
    and "\<forall>can. canReuseAST (plugins w tn) = Some can \<longrightarrow> \<not> can a"
    and "generate (plugins w t) = None"
  shows "fst (fst (transform w opts (Suc (Suc n)) req cache)) = Thrown MissingGenerate
         \<and> snd (transform w opts (Suc (Suc n)) req cache) = cache"
proof -
  let ?po = "\<lparr>input = newInput w req s, originalPipeline = None, pipeline = pl,
              cacheEntry = ce, previousGenerate = None\<rparr>"
  have "fst (runPipeline w (Suc (Suc n)) ?po) = Thrown MissingGenerate"
    using assms(5-17)
    by (intro runPipeline_regenerate_missing_generate
          [where po = ?po and t = t and rt = rt and fr = fr and before = before
             and result = result and rest = rest and acc = acc and np = np and a = a
             and tn = tn and config = config])
       (simp_all split: if_splits)
  from request_pipeline_fails [where cache = cache and opts = opts, OF assms(1-4) this] show ?thesis .
qed


text \<open>
  Claim C8. An asset that carries an AST must be turned into code, and the transformer
  whose \<^verbatim>\<open>generate\<close> closure is called has no \<^verbatim>\<open>generate\<close> hook. Then the request fails:
  \<^verbatim>\<open>transform\<close> throws \<open>MissingGenerate\<close> (the Error "Asset has an AST but no generate
  method is available on the transform" of the closure), returns no entry, and leaves the
  persistent cache as it was.

  For the request, in a run that is not served from the cache (the file is summarized,
  and the entry looked up, if any, has another hash or a connected file that changed):

  \<^item> finalization: the pipeline of the request is the single transformer \<open>t\<close>, its step
    has returned, the turns of the loop before have returned, and a child of the step,
    not served from the cache entry and mapped to the same pipeline, carries an AST,
    while \<open>t\<close> has no \<^verbatim>\<open>generate\<close>;
  \<^item> the next transformer cannot consume the AST: the first step of the pipeline, by
    \<open>t\<close>, has returned, the turns of the loop before have returned, and a child of the
    step, not served from the cache entry, carries an AST and goes on to the transformer
    \<open>tn\<close> (the second of the pipeline, or the first of the pipeline it jumps to), whose
    config loads and which has no \<^verbatim>\<open>canReuseAST\<close> or refuses the AST, while \<open>t\<close> has no
    \<^verbatim>\<open>generate\<close>.

  At any depth of the recursion, the two places where the error is thrown:

  \<^item> \<^verbatim>\<open>finalize\<close> on an asset with an AST throws \<open>MissingGenerate\<close>;
  \<^item> \<^verbatim>\<open>runTransform\<close> (the config load done), when the transformer cannot reuse the
    AST and \<^verbatim>\<open>previousGenerate\<close> is that closure, throws \<open>MissingGenerate\<close> before any
    \<^verbatim>\<open>parse\<close> or \<^verbatim>\<open>transform\<close>;

  and nothing catches it: a failing \<^verbatim>\<open>runTransform\<close> fails its \<^verbatim>\<open>runPipeline\<close>; a
  failing \<^verbatim>\<open>finalize\<close> or nested \<^verbatim>\<open>runPipeline\<close> (of the rest of the pipeline, or of the
  pipeline jumped to) fails the turn of the loop; a failing turn fails the loop, the
  turns before it having returned; a failing loop fails the \<^verbatim>\<open>runPipeline\<close>; and a
  failing top-level \<^verbatim>\<open>runPipeline\<close> fails \<^verbatim>\<open>transform\<close>, which stores nothing.
\<close>

theorem missing_generate_fails:
  "(\<forall>s ce t rt fr before result rest acc np a n.
      fst (summarizeRequest w req) = Returned s
      \<and> ce = (if opt_cache opts \<noteq> Some False \<and> code req = None
              then cache (reqCacheKey w req) else None)
      \<and> (\<forall>en. ce = Some en \<and> ce_hash en = s_hash s \<longrightarrow>
            fst (checkCachedAssets w (assets en)) = Returned False)
      \<and> getTransformers w (req_filePath req) = Inr [t]
      \<and> fst (runTransform w (newInput w req s) (Some t) None) = Returned rt
      \<and> fr = \<lparr>fr_input = tr_input rt, fr_inputType = type (newInput w req s),
               fr_pipeline = [t], fr_originalPipeline = [t],
               fr_cacheEntry = ce, fr_generate = tr_generate rt\<rparr>
      \<and> results rt = before @ result # rest
      \<and> fst (runChildren w n fr before []) = Returned acc
      \<and> fst (tryCache w fr (createChildAsset w (tr_input rt) result)) = Returned None
      \<and> fst (nextPipelineFor w fr result) = Returned np
      \<and> isEqualPipeline [t] np
      \<and> ast (createChildAsset w (tr_input rt) result) = Some a
      \<and> generate (plugins w t) = None
      \<longrightarrow> fst (fst (transform w opts (Suc n) req cache)) = Thrown MissingGenerate
          \<and> snd (transform w opts (Suc n) req cache) = cache)
   \<and> (\<forall>s ce pl t rt fr before result rest acc np tn config a n.
      fst (summarizeRequest w req) = Returned s
      \<and> ce = (if opt_cache opts \<noteq> Some False \<and> code req = None
              then cache (reqCacheKey w req) else None)
      \<and> (\<forall>en. ce = Some en \<and> ce_hash en = s_hash s \<longrightarrow>
            fst (checkCachedAssets w (assets en)) = Returned False)
      \<and> getTransformers w (req_filePath req) = Inr pl
      \<and> headOf pl = Some t
      \<and> fst (runTransform w (newInput w req s) (Some t) None) = Returned rt
      \<and> fr = \<lparr>fr_input = tr_input rt, fr_inputType = type (newInput w req s),
               fr_pipeline = pl, fr_originalPipeline = pl,
               fr_cacheEntry = ce, fr_generate = tr_generate rt\<rparr>
      \<and> results rt = before @ result # rest
      \<and> fst (runChildren w (Suc n) fr before []) = Returned acc
      \<and> fst (tryCache w fr (createChildAsset w (tr_input rt) result)) = Returned None
      \<and> fst (nextPipelineFor w fr result) = Returned np
      \<and> (isEqualPipeline pl np \<longrightarrow> length pl \<noteq> 1)
      \<and> headOf (if isEqualPipeline pl np then tl pl else np) = Some tn
      \<and> fst (loadConfig w tn (createChildAsset w (tr_input rt) result)) = Returned config
      \<and> ast (createChildAsset w (tr_input rt) result) = Some a
      \<and> (\<forall>can. canReuseAST (plugins w tn) = Some can \<longrightarrow> \<not> can a)
      \<and> generate (plugins w t) = None
      \<longrightarrow> fst (fst (transform w opts (Suc (Suc n)) req cache)) = Thrown MissingGenerate
          \<and> snd (transform w opts (Suc (Suc n)) req cache) = cache)
   \<and> (\<forall>asset tg cfg a. ast asset = Some a \<and> generate (plugins w tg) = None \<longrightarrow>
        finalize w asset (tg, cfg) = (Thrown MissingGenerate, []))
   \<and> (\<forall>t inp tg cfg a config ev0.
        loadConfig w t inp = (Returned config, ev0) \<and> ast inp = Some a
        \<and> (\<forall>can. canReuseAST (plugins w t) = Some can \<longrightarrow> \<not> can a)
        \<and> generate (plugins w tg) = None \<longrightarrow>
        runTransform w inp (Some t) (Some (tg, cfg)) =
          (Thrown MissingGenerate,
           ev0 @ (case canReuseAST (plugins w t) of None \<Rightarrow> []
                  | Some can \<Rightarrow> [EvHook t CanReuseAST])))
   \<and> (\<forall>n po e.
        fst (runTransform w (input po) (headOf (pipeline po)) (previousGenerate po)) = Thrown e
        \<longrightarrow> fst (runPipeline w (Suc n) po) = Thrown e)
   \<and> (\<forall>n fr result e np.
        fst (tryCache w fr (createChildAsset w (fr_input fr) result)) = Returned None
        \<and> fst (nextPipelineFor w fr result) = Returned np
        \<and> isEqualPipeline (fr_originalPipeline fr) np \<and> length (fr_pipeline fr) = 1
        \<and> fst (finalize w (createChildAsset w (fr_input fr) result) (fr_generate fr)) = Thrown e
        \<longrightarrow> fst (runChild w n fr result) = Thrown e)
   \<and> (\<forall>n fr result e np.
        fst (tryCache w fr (createChildAsset w (fr_input fr) result)) = Returned None
        \<and> fst (nextPipelineFor w fr result) = Returned np
        \<and> isEqualPipeline (fr_originalPipeline fr) np \<and> length (fr_pipeline fr) \<noteq> 1
        \<and> fst (runPipeline w n
                  \<lparr>input = createChildAsset w (fr_input fr) result,
                   originalPipeline = Some (fr_originalPipeline fr),
                   pipeline = tl (fr_pipeline fr),
                   cacheEntry = None,
                   previousGenerate = Some (fr_generate fr)\<rparr>) = Thrown e
        \<longrightarrow> fst (runChild w n fr result) = Thrown e)
   \<and> (\<forall>n fr result e np.
        fst (tryCache w fr (createChildAsset w (fr_input fr) result)) = Returned None
        \<and> fst (nextPipelineFor w fr result) = Returned np
        \<and> \<not> isEqualPipeline (fr_originalPipeline fr) np
        \<and> fst (runPipeline w n
                  \<lparr>input = createChildAsset w (fr_input fr) result,
                   originalPipeline = None,
                   pipeline = np,
                   cacheEntry = None,
                   previousGenerate = Some (fr_generate fr)\<rparr>) = Thrown e
        \<longrightarrow> fst (runChild w n fr result) = Thrown e)
   \<and> (\<forall>n fr result e before as acc es rest.
        runChildren w n fr before as = (Returned acc, es)
        \<and> fst (runChild w n fr result) = Thrown e
        \<longrightarrow> fst (runChildren w n fr (before @ result # rest) as) = Thrown e)
   \<and> (\<forall>n po e rt.
        fst (runTransform w (input po) (headOf (pipeline po)) (previousGenerate po)) = Returned rt
        \<and> fst (runChildren w n
                  \<lparr>fr_input = tr_input rt, fr_inputType = type (input po),
                   fr_pipeline = pipeline po,
                   fr_originalPipeline =
                     (case originalPipeline po of None \<Rightarrow> pipeline po | Some op \<Rightarrow> op),
                   fr_cacheEntry = cacheEntry po, fr_generate = tr_generate rt\<rparr>
                  (results rt) []) = Thrown e
        \<longrightarrow> fst (runPipeline w (Suc n) po) = Thrown e)
   \<and> (\<forall>fuel e s ce pl.
        fst (summarizeRequest w req) = Returned s
        \<and> ce = (if opt_cache opts \<noteq> Some False \<and> code req = None
                then cache (reqCacheKey w req) else None)
        \<and> (\<forall>en. ce = Some en \<and> ce_hash en = s_hash s \<longrightarrow>
              fst (checkCachedAssets w (assets en)) = Returned False)
        \<and> getTransformers w (req_filePath req) = Inr pl
        \<and> fst (runPipeline w fuel
                  \<lparr>input = newInput w req s, originalPipeline = None, pipeline = pl,
                   cacheEntry = ce, previousGenerate = None\<rparr>) = Thrown e
        \<longrightarrow> fst (fst (transform w opts fuel req cache)) = Thrown e
            \<and> snd (transform w opts fuel req cache) = cache)"
  apply (intro conjI)
  subgoal
    by (intro allI impI, elim conjE, intro conjI;
        (rule request_finalize_missing_generate [THEN conjunct1]
              request_finalize_missing_generate [THEN conjunct2]; assumption))
  subgoal
    by (intro allI impI, elim conjE, intro conjI;
        (rule request_regenerate_missing_generate [THEN conjunct1]
              request_regenerate_missing_generate [THEN conjunct2]; assumption))
  subgoal by (intro allI impI, elim conjE, rule finalize_missing_generate; assumption)
  subgoal by (intro allI impI, elim conjE, rule runTransform_missing_generate; assumption)
  subgoal by (intro allI impI, rule runPipeline_transform_fails; assumption)
  subgoal by (intro allI impI, elim conjE, rule runChild_finalize_fails; assumption)
  subgoal by (intro allI impI, elim conjE, rule runChild_tail_fails; assumption)
  subgoal by (intro allI impI, elim conjE, rule runChild_jump_fails; assumption)
  subgoal by (intro allI impI, elim conjE, rule runChildren_child_fails; assumption)
  subgoal by (intro allI impI, elim conjE, rule runPipeline_children_fail; assumption)
  subgoal
    by (intro allI impI, elim conjE, intro conjI;
        (rule request_pipeline_fails [THEN conjunct1]
              request_pipeline_fails [THEN conjunct2]; assumption))
  done


text \<open>
  The example: the transformer 5 parses and has no \<^verbatim>\<open>generate\<close>. Alone in the pipeline of
  \<^verbatim>\<open>a.ts\<close>, its output fails at finalization; followed in the pipeline of \<^verbatim>\<open>a.tsx\<close> by a
  transformer that cannot reuse its AST, the next step fails. Both requests throw, and
  nothing is stored.
\<close>

theorem missing_generate_fails_witness:
  "finalize demoWorld demoAstAsset (5, None) = (Thrown MissingGenerate, [])
   \<and> runTransform demoWorld demoAstAsset (Some 1) (Some (5, None)) =
       (Thrown MissingGenerate, [EvHook 1 CanReuseAST])
   \<and> fst (fst (transform demoWorld demoOptions (Suc 4) (demoRequest ''a.ts'') Map.empty)) =
       Thrown MissingGenerate
   \<and> snd (transform demoWorld demoOptions (Suc 4) (demoRequest ''a.ts'') Map.empty) = Map.empty
   \<and> snd (fst (transform demoWorld demoOptions (Suc 4) (demoRequest ''a.ts'') Map.empty)) =
       [EvReport ''a.ts'', EvCacheGet (reqCacheKey demoWorld (demoRequest ''a.ts'')),
        EvGetTransformers ''a.ts'', EvRunPipeline [5], EvHook 5 Parse, EvHook 5 TransformHook]
   \<and> fst (fst (transform demoWorld demoOptions (Suc (Suc 3)) (demoRequest ''a.tsx'') Map.empty)) =
       Thrown MissingGenerate
   \<and> snd (transform demoWorld demoOptions (Suc (Suc 3)) (demoRequest ''a.tsx'') Map.empty) =
       Map.empty
   \<and> snd (fst (transform demoWorld demoOptions (Suc (Suc 3)) (demoRequest ''a.tsx'') Map.empty)) =
       [EvReport ''a.tsx'', EvCacheGet (reqCacheKey demoWorld (demoRequest ''a.tsx'')),
        EvGetTransformers ''a.tsx'', EvRunPipeline [5, 1], EvHook 5 Parse,
        EvHook 5 TransformHook, EvRunPipeline [1], EvHook 1 CanReuseAST]"
proof -
  let ?ts = "demoRequest ''a.ts''"
  let ?tsx = "demoRequest ''a.tsx''"
  let ?rt = "demoParsedRun ''a.ts''"
  let ?rtx = "demoParsedRun ''a.tsx''"
  let ?fr = "\<lparr>fr_input = tr_input ?rt, fr_inputType = type (newInput demoWorld ?ts demoSummary),
              fr_pipeline = [5], fr_originalPipeline = [5],
              fr_cacheEntry = None, fr_generate = tr_generate ?rt\<rparr>"
  let ?frx = "\<lparr>fr_input = tr_input ?rtx,
               fr_inputType = type (newInput demoWorld ?tsx demoSummary),
               fr_pipeline = [5, 1], fr_originalPipeline = [5, 1],
               fr_cacheEntry = None, fr_generate = tr_generate ?rtx\<rparr>"
  let ?child = "createChildAsset demoWorld (tr_input ?rt) (hd (results ?rt))"
  let ?childx = "createChildAsset demoWorld (tr_input ?rtx) (hd (results ?rtx))"
  note local = missing_generate_fails [where w = demoWorld, THEN conjunct2, THEN conjunct2]
  have 1: "finalize demoWorld demoAstAsset (5, None) = (Thrown MissingGenerate, [])"
    using local [THEN conjunct1, rule_format, of demoAstAsset 10 5 None]
    by (simp add: demoAstAsset_def demoAsset_def demoWorld_def demoPlugins_def pluginNoGen_def)
  have cfg: "loadConfig demoWorld 1 demoAstAsset = (Returned None, [])"
    by (simp add: loadConfig_def demoWorld_def demoPlugins_def pluginQ_def ret_def)
  have 2: "runTransform demoWorld demoAstAsset (Some 1) (Some (5, None)) =
             (Thrown MissingGenerate, [EvHook 1 CanReuseAST])"
    using local [THEN conjunct2, THEN conjunct1, rule_format,
        of 1 demoAstAsset None "[]" 10 5 None] cfg
    by (simp add: demoAstAsset_def demoAsset_def demoWorld_def demoPlugins_def pluginNoGen_def
        pluginQ_def)
  have s: "fst (summarizeRequest demoWorld ?ts) = Returned demoSummary" by code_simp
  have ce: "None = (if opt_cache demoOptions \<noteq> Some False \<and> code ?ts = None
                    then Map.empty (reqCacheKey demoWorld ?ts) else None)" by simp
  have stale: "\<forall>en. None = Some en \<and> ce_hash en = s_hash demoSummary \<longrightarrow>
                 fst (checkCachedAssets demoWorld (assets en)) = Returned False" by simp
  have pl: "getTransformers demoWorld (req_filePath ?ts) = Inr [5]" by code_simp
  have rt: "fst (runTransform demoWorld (newInput demoWorld ?ts demoSummary) (Some 5) None) =
              Returned ?rt" by code_simp
  have res: "results ?rt = [] @ hd (results ?rt) # []"
    by (simp add: demoParsedRun_def normalizeAssets_def)
  have bef: "fst (runChildren demoWorld 4 ?fr [] []) = Returned []"
    by (simp add: runChildren.simps)
  have nohit: "fst (tryCache demoWorld ?fr ?child) = Returned None"
    by (simp add: tryCache_def)
  have np: "fst (nextPipelineFor demoWorld ?fr (hd (results ?rt))) = Returned [5]" by code_simp
  have eq: "isEqualPipeline [5] [5]" by (simp add: isEqualPipeline_def)
  have a: "ast ?child = Some 30" by code_simp
  have nogen: "generate (plugins demoWorld 5) = None"
    by (simp add: demoWorld_def demoPlugins_def pluginNoGen_def)
  have 3: "fst (fst (transform demoWorld demoOptions (Suc 4) ?ts Map.empty)) =
             Thrown MissingGenerate
           \<and> snd (transform demoWorld demoOptions (Suc 4) ?ts Map.empty) = Map.empty"
    by (rule missing_generate_fails [where w = demoWorld and opts = demoOptions
          and req = ?ts and cache = Map.empty, THEN conjunct1, rule_format,
          where s = demoSummary and ce = None and t = 5 and rt = ?rt and fr = ?fr
            and before = "[]" and result = "hd (results ?rt)" and rest = "[]"
            and acc = "[]" and np = "[5]" and a = 30 and n = 4])
       (intro conjI s ce stale pl rt refl res bef nohit np eq a nogen)
  have 4: "snd (fst (transform demoWorld demoOptions (Suc 4) ?ts Map.empty)) =
       [EvReport ''a.ts'', EvCacheGet (reqCacheKey demoWorld ?ts),
        EvGetTransformers ''a.ts'', EvRunPipeline [5], EvHook 5 Parse, EvHook 5 TransformHook]"
    by code_simp
  have sx: "fst (summarizeRequest demoWorld ?tsx) = Returned demoSummary" by code_simp
  have cex: "None = (if opt_cache demoOptions \<noteq> Some False \<and> code ?tsx = None
                     then Map.empty (reqCacheKey demoWorld ?tsx) else None)" by simp
  have plx: "getTransformers demoWorld (req_filePath ?tsx) = Inr [5, 1]" by code_simp
  have first: "headOf [5, 1] = Some (5::nat)" by (simp add: headOf_def)
  have rtx: "fst (runTransform demoWorld (newInput demoWorld ?tsx demoSummary) (Some 5) None) =
               Returned ?rtx" by code_simp
  have resx: "results ?rtx = [] @ hd (results ?rtx) # []"
    by (simp add: demoParsedRun_def normalizeAssets_def)
  have befx: "fst (runChildren demoWorld (Suc 3) ?frx [] []) = Returned []"
    by (simp add: runChildren.simps)
  have nohitx: "fst (tryCache demoWorld ?frx ?childx) = Returned None"
    by (simp add: tryCache_def)
  have npx: "fst (nextPipelineFor demoWorld ?frx (hd (results ?rtx))) = Returned [5, 1]"
    by code_simp
  have notlast: "isEqualPipeline [5, 1] [5, 1] \<longrightarrow> length [5::nat, 1] \<noteq> 1" by simp
  have tn: "headOf (if isEqualPipeline [5, 1] [5, 1] then tl [5, 1] else [5, 1]) = Some (1::nat)"
    by (simp add: headOf_def isEqualPipeline_def)
  have cfgx: "fst (loadConfig demoWorld 1 ?childx) = Returned None"
    by (simp add: loadConfig_def demoWorld_def demoPlugins_def pluginQ_def)
  have ax: "ast ?childx = Some 30" by code_simp
  have noreuse: "\<forall>can. canReuseAST (plugins demoWorld 1) = Some can \<longrightarrow> \<not> can 30"
    by (simp add: demoWorld_def demoPlugins_def pluginQ_def)
  have 5: "fst (fst (transform demoWorld demoOptions (Suc (Suc 3)) ?tsx Map.empty)) =
             Thrown MissingGenerate
           \<and> snd (transform demoWorld demoOptions (Suc (Suc 3)) ?tsx Map.empty) = Map.empty"
    by (rule missing_generate_fails [where w = demoWorld and opts = demoOptions
          and req = ?tsx and cache = Map.empty, THEN conjunct2, THEN conjunct1, rule_format,
          where s = demoSummary and ce = None and pl = "[5, 1]" and t = 5 and rt = ?rtx
            and fr = ?frx and before = "[]" and result = "hd (results ?rtx)" and rest = "[]"
            and acc = "[]" and np = "[5, 1]" and tn = 1 and config = None and a = 30
            and n = 3])
       (intro conjI sx cex stale plx first rtx refl resx befx nohitx npx notlast tn cfgx ax
          noreuse nogen)
  have 6: "snd (fst (transform demoWorld demoOptions (Suc (Suc 3)) ?tsx Map.empty)) =
       [EvReport ''a.tsx'', EvCacheGet (reqCacheKey demoWorld ?tsx),
        EvGetTransformers ''a.tsx'', EvRunPipeline [5, 1], EvHook 5 Parse,
        EvHook 5 TransformHook, EvRunPipeline [1], EvHook 1 CanReuseAST]"
    by code_simp
  show ?thesis
    by (intro conjI 1 2 3 [THEN conjunct1] 3 [THEN conjunct2] 4
          5 [THEN conjunct1] 5 [THEN conjunct2] 6)
qed

subsection \<open>The post-process phase\<close>

lemma callPostProcess_eq:
  "callPostProcess w (t, config, inp) as =
     (case postProcess (plugins w t) of
        None \<Rightarrow> (Returned None, [])
      | Some post \<Rightarrow>
          (case post as config of
             Inl e \<Rightarrow> Thrown e
           | Inr None \<Rightarrow> Thrown (TypeError ''Cannot read property map of null'')
           | Inr (Some rs) \<Rightarrow> Returned (Some (map (createChildAsset w inp) rs)),
           [EvHook t PostProcess]))"
  by (simp add: callPostProcess_def bindM_emit bindM_Returned lift_def ret_def throw_def
      split: option.splits sum.splits)

text \<open>
  Claim C6, as amended. A \<^verbatim>\<open>runPipeline\<close> call whose head transformer is \<open>t\<close>, whose
  \<^verbatim>\<open>runTransform\<close> has returned and whose loop has collected the child assets \<open>as\<close>:

  \<^item> if \<open>t\<close> has no \<^verbatim>\<open>postProcess\<close> hook, the call returns \<open>as\<close> as its assets and no
    initial assets (\<^verbatim>\<open>null\<close>), and calls no hook after the loop;
  \<^item> if \<open>t\<close> has a \<^verbatim>\<open>postProcess\<close> hook and the hook returns a list of results, the call
    returns as its assets the child assets that \<^verbatim>\<open>input.createChildAsset\<close> makes of those
    results, and \<open>as\<close> as its initial assets.
\<close>

theorem runPipeline_postProcess:
  assumes "pipeline po = t # rest"
    and "runTransform w (input po) (Some t) (previousGenerate po) = (Returned rt, ev1)"
    and "runChildren w n
           \<lparr>fr_input = tr_input rt, fr_inputType = type (input po),
            fr_pipeline = pipeline po,
            fr_originalPipeline =
              (case originalPipeline po of None \<Rightarrow> pipeline po | Some op \<Rightarrow> op),
            fr_cacheEntry = cacheEntry po, fr_generate = tr_generate rt\<rparr>
           (results rt) [] = (Returned as, ev2)"
  shows "(postProcess (plugins w t) = None \<longrightarrow>
            runPipeline w (Suc n) po =
              (Returned \<lparr>pr_assets = as, pr_initialAssets = None\<rparr>,
               EvRunPipeline (pipeline po) # ev1 @ ev2))
         \<and> (\<forall>post rs.
              postProcess (plugins w t) = Some post
              \<and> post as (snd (tr_generate rt)) = Inr (Some rs) \<longrightarrow>
              runPipeline w (Suc n) po =
                (Returned \<lparr>pr_assets = map (createChildAsset w (tr_input rt)) rs,
                          pr_initialAssets = Some as\<rparr>,
                 EvRunPipeline (pipeline po) # ev1 @ ev2 @ [EvHook t PostProcess]))"
proof -
  note cl = runTransform_closures [OF assms(2)]
  have pp: "tr_postProcess rt = (t, snd (tr_generate rt), tr_input rt)"
    using cl by simp
  have hd: "headOf (pipeline po) = Some t"
    using assms(1) by (simp add: headOf_def)
  have run: "runPipeline w (Suc n) po =
               (case callPostProcess w (t, snd (tr_generate rt), tr_input rt) as of
                  (Returned finalAssets, ev3) \<Rightarrow>
                    (Returned \<lparr>pr_assets = (case finalAssets of Some fa \<Rightarrow> fa | None \<Rightarrow> as),
                              pr_initialAssets =
                                (case finalAssets of Some fa \<Rightarrow> Some as | None \<Rightarrow> None)\<rparr>,
                     EvRunPipeline (pipeline po) # ev1 @ ev2 @ ev3)
                | (Thrown e, ev3) \<Rightarrow> (Thrown e, EvRunPipeline (pipeline po) # ev1 @ ev2 @ ev3)
                | (Timeout, ev3) \<Rightarrow> (Timeout, EvRunPipeline (pipeline po) # ev1 @ ev2 @ ev3))"
    using assms(2,3)
    by (simp add: runPipeline.simps hd bindM_emit bindM_Returned pp fst_bindM snd_bindM
        split: prod.splits outcome.splits)
  show ?thesis
    by (auto simp: run callPostProcess_eq)
qed


text \<open>
  The example: the one transformer of the \<^verbatim>\<open>a.css\<close> pipeline emits two assets and its
  \<^verbatim>\<open>postProcess\<close> merges them into one.
\<close>

theorem runPipeline_postProcess_witness:
  "runTransform demoWorld (input (demoTop ''a.css'' [4])) (Some 4) None
     = (Returned demoCssRun, [EvHook 4 TransformHook])
   \<and> runPipeline demoWorld (Suc 0) (demoTop ''a.css'' [4]) =
       (Returned \<lparr>pr_assets = [demoChild (demoInput ''a.css'') (demoResult ''css'' ''a{}b{}'' None)],
                 pr_initialAssets = Some demoCssChildren\<rparr>,
        [EvRunPipeline [4], EvHook 4 TransformHook, EvHook 4 PostProcess])"
proof -
  have h1: "pipeline (demoTop ''a.css'' [4]) = 4 # []"
    by (simp add: demoTop_def)
  have h2: "runTransform demoWorld (input (demoTop ''a.css'' [4])) (Some 4)
              (previousGenerate (demoTop ''a.css'' [4]))
              = (Returned demoCssRun, [EvHook 4 TransformHook])"
    by code_simp
  have h3: "runChildren demoWorld 0
           \<lparr>fr_input = tr_input demoCssRun, fr_inputType = type (input (demoTop ''a.css'' [4])),
            fr_pipeline = pipeline (demoTop ''a.css'' [4]),
            fr_originalPipeline =
              (case originalPipeline (demoTop ''a.css'' [4]) of
                 None \<Rightarrow> pipeline (demoTop ''a.css'' [4]) | Some op \<Rightarrow> op),
            fr_cacheEntry = cacheEntry (demoTop ''a.css'' [4]),
            fr_generate = tr_generate demoCssRun\<rparr>
           (results demoCssRun) [] = (Returned demoCssChildren, [])"
    by code_simp
  have 1: "runTransform demoWorld (input (demoTop ''a.css'' [4])) (Some 4) None
             = (Returned demoCssRun, [EvHook 4 TransformHook])"
    using h2 by (simp add: demoTop_def)
  have 2: "runPipeline demoWorld (Suc 0) (demoTop ''a.css'' [4]) =
       (Returned \<lparr>pr_assets = [demoChild (demoInput ''a.css'') (demoResult ''css'' ''a{}b{}'' None)],
                 pr_initialAssets = Some demoCssChildren\<rparr>,
        [EvRunPipeline [4], EvHook 4 TransformHook, EvHook 4 PostProcess])"
    using runPipeline_postProcess [OF h1 h2 h3, THEN conjunct2, rule_format,
        of "\<lambda>as c. Inr (Some [demoResult ''css'' ''a{}b{}'' None])"
           "[demoResult ''css'' ''a{}b{}'' None]"]
    by (simp add: demoWorld_def demoPlugins_def pluginR_def demoCssRun_def demoTop_def)
  show ?thesis by (intro conjI 1 2)
qed

text \<open>
  Claim C6 as stated fails where the \<^verbatim>\<open>postProcess\<close> hook itself yields \<^verbatim>\<open>null\<close>: the
  transformer 6 of the \<^verbatim>\<open>a.txt\<close> pipeline has such a hook. The loop collects one child
  asset, the hook is called and returns \<^verbatim>\<open>null\<close>, and \<^verbatim>\<open>runPipeline\<close> does not return the
  collected assets with no initial assets: \<^verbatim>\<open>results.map\<close> throws a TypeError.
\<close>

theorem postProcess_null_counterexample:
  "runTransform demoWorld (demoInput ''a.txt'') (Some 6) None =
     (Returned \<lparr>results = normalizeAssets [View (demoInput ''a.txt'')], tr_generate = (6, None),
               tr_postProcess = (6, None, demoInput ''a.txt''),
               tr_input = demoInput ''a.txt''\<rparr>,
      [EvHook 6 TransformHook])
   \<and> runChildren demoWorld 0
         \<lparr>fr_input = demoInput ''a.txt'', fr_inputType = ''txt'', fr_pipeline = [6],
          fr_originalPipeline = [6], fr_cacheEntry = None, fr_generate = (6, None)\<rparr>
         (normalizeAssets [View (demoInput ''a.txt'')]) [] = (Returned [demoTxtChild], [])
   \<and> (case postProcess (plugins demoWorld 6) of
        Some post \<Rightarrow> post [demoTxtChild] None = Inr None
      | None \<Rightarrow> False)
   \<and> runPipeline demoWorld (Suc 0) (demoTop ''a.txt'' [6]) =
       (Thrown (TypeError ''Cannot read property map of null''),
        [EvRunPipeline [6], EvHook 6 TransformHook, EvHook 6 PostProcess])
   \<and> fst (runPipeline demoWorld (Suc 0) (demoTop ''a.txt'' [6])) \<noteq>
       Returned \<lparr>pr_assets = [demoTxtChild], pr_initialAssets = None\<rparr>"
proof -
  have 1: "runTransform demoWorld (demoInput ''a.txt'') (Some 6) None =
     (Returned \<lparr>results = normalizeAssets [View (demoInput ''a.txt'')], tr_generate = (6, None),
               tr_postProcess = (6, None, demoInput ''a.txt''),
               tr_input = demoInput ''a.txt''\<rparr>,
      [EvHook 6 TransformHook])"
    by code_simp
  have 2: "runChildren demoWorld 0
         \<lparr>fr_input = demoInput ''a.txt'', fr_inputType = ''txt'', fr_pipeline = [6],
          fr_originalPipeline = [6], fr_cacheEntry = None, fr_generate = (6, None)\<rparr>
         (normalizeAssets [View (demoInput ''a.txt'')]) [] = (Returned [demoTxtChild], [])"
    by code_simp
  have 3: "(case postProcess (plugins demoWorld 6) of
        Some post \<Rightarrow> post [demoTxtChild] None = Inr None
      | None \<Rightarrow> False)"
    by (simp add: demoWorld_def demoPlugins_def pluginNull_def)
  have 4: "runPipeline demoWorld (Suc 0) (demoTop ''a.txt'' [6]) =
       (Thrown (TypeError ''Cannot read property map of null''),
        [EvRunPipeline [6], EvHook 6 TransformHook, EvHook 6 PostProcess])"
    by code_simp
  show ?thesis using 1 2 3 4 by simp
qed

subsection \<open>Pipeline jumps\<close>

lemma isEqualPipeline_shallow:
  "isEqualPipeline a b \<longleftrightarrow> length a = length b \<and> (\<forall>i<length a. a ! i = b ! i)"
  by (auto simp: isEqualPipeline_iff list_eq_iff_nth_eq)

lemma tryCache_None:
  "fst (tryCache w fr asset) = Returned None \<Longrightarrow> tryCache w fr asset = ret None"
  by (simp add: prod_eq_iff)

text \<open>
  Claim C2, as amended. For a result that the cache entry does not serve (\<open>tryCache\<close>
  gives \<^verbatim>\<open>null\<close>: there is no cache entry, or no cached asset has the child's hash, or
  the connected files of those that have it have changed), and where the pipeline
  recomputed for a type that differs is \<open>recomputed\<close>:

  \<^item> the turn of the loop jumps, that is, runs \<^verbatim>\<open>runPipeline\<close> on the child with
    \<open>recomputed\<close> as pipeline and original pipeline, no cache entry, and the current
    transformer's \<^verbatim>\<open>generate\<close> as \<^verbatim>\<open>previousGenerate\<close>, exactly when the result's type
    differs from the input's and \<open>recomputed\<close> is not shallow-equal to the original
    pipeline;
  \<^item> otherwise the child is finalized when the pipeline has length 1, and else runs on the
    tail of the pipeline, with the same original pipeline.

  \<^verbatim>\<open>getTransformers\<close> is called only when the types differ, on the path that
  \<^verbatim>\<open>nextFilePath\<close> gives, which ends in a dot and the new type. Shallow equality is equal
  length and equal handles at every index.
\<close>

theorem runChild_route:
  assumes "fst (tryCache w fr (createChildAsset w (fr_input fr) result)) = Returned None"
    and "r_type result \<noteq> fr_inputType fr \<longrightarrow>
           getTransformers w (nextFilePath w (fr_input fr) (r_type result)) = Inr recomputed"
  shows "runChild w n fr result =
           (if r_type result \<noteq> fr_inputType fr
               \<and> \<not> isEqualPipeline (fr_originalPipeline fr) recomputed
            then
              bindM (emit (EvGetTransformers (nextFilePath w (fr_input fr) (r_type result)))) (\<lambda>_.
              bindM (runPipeline w n
                       \<lparr>input = createChildAsset w (fr_input fr) result,
                        originalPipeline = None,
                        pipeline = recomputed,
                        cacheEntry = None,
                        previousGenerate = Some (fr_generate fr)\<rparr>)
                (\<lambda>r. ret (pr_assets r)))
            else
              bindM (if r_type result \<noteq> fr_inputType fr
                     then emit (EvGetTransformers (nextFilePath w (fr_input fr) (r_type result)))
                     else ret ()) (\<lambda>_.
                if length (fr_pipeline fr) = 1 then
                  bindM (finalize w (createChildAsset w (fr_input fr) result) (fr_generate fr))
                    (\<lambda>a. ret [a])
                else
                  bindM (runPipeline w n
                           \<lparr>input = createChildAsset w (fr_input fr) result,
                            originalPipeline = Some (fr_originalPipeline fr),
                            pipeline = tl (fr_pipeline fr),
                            cacheEntry = None,
                            previousGenerate = Some (fr_generate fr)\<rparr>)
                    (\<lambda>r. ret (pr_assets r))))
         \<and> (\<exists>stem. nextFilePath w (fr_input fr) (r_type result) = stem @ ''.'' @ r_type result)
         \<and> (\<forall>a b. isEqualPipeline a b
               \<longleftrightarrow> length a = length b \<and> (\<forall>i<length a. a ! i = b ! i))"
proof -
  note tc = tryCache_None [OF assms(1)]
  have same: "isEqualPipeline (fr_originalPipeline fr) (fr_originalPipeline fr)"
    by (simp add: isEqualPipeline_iff)
  have 1: "runChild w n fr result = (if r_type result \<noteq> fr_inputType fr
               \<and> \<not> isEqualPipeline (fr_originalPipeline fr) recomputed
            then
              bindM (emit (EvGetTransformers (nextFilePath w (fr_input fr) (r_type result)))) (\<lambda>_.
              bindM (runPipeline w n
                       \<lparr>input = createChildAsset w (fr_input fr) result,
                        originalPipeline = None,
                        pipeline = recomputed,
                        cacheEntry = None,
                        previousGenerate = Some (fr_generate fr)\<rparr>)
                (\<lambda>r. ret (pr_assets r)))
            else
              bindM (if r_type result \<noteq> fr_inputType fr
                     then emit (EvGetTransformers (nextFilePath w (fr_input fr) (r_type result)))
                     else ret ()) (\<lambda>_.
                if length (fr_pipeline fr) = 1 then
                  bindM (finalize w (createChildAsset w (fr_input fr) result) (fr_generate fr))
                    (\<lambda>a. ret [a])
                else
                  bindM (runPipeline w n
                           \<lparr>input = createChildAsset w (fr_input fr) result,
                            originalPipeline = Some (fr_originalPipeline fr),
                            pipeline = tl (fr_pipeline fr),
                            cacheEntry = None,
                            previousGenerate = Some (fr_generate fr)\<rparr>)
                    (\<lambda>r. ret (pr_assets r))))"
  proof (cases "r_type result \<noteq> fr_inputType fr")
    case True
    then have gt: "getTransformers w (nextFilePath w (fr_input fr) (r_type result)) = Inr recomputed"
      using assms(2) by simp
    show ?thesis
      using True
      by (simp add: runChild.simps tc nextPipelineFor_def gt lift_def bindM_emit bindM_Returned
          ret_def)
  next
    case False
    then show ?thesis
      by (simp add: runChild.simps tc nextPipelineFor_def same)
  qed
  have 2: "\<exists>stem. nextFilePath w (fr_input fr) (r_type result) = stem @ ''.'' @ r_type result"
    by (simp add: nextFilePath_def Let_def)
  show ?thesis using 1 2 isEqualPipeline_shallow by blast
qed


text \<open>
  The example: with no cache entry, the HTML result of the markdown transformer jumps to
  the HTML pipeline; the JavaScript result of the first transformer of the \<^verbatim>\<open>a.js\<close>
  pipeline stays, on the tail of that pipeline.
\<close>

theorem runChild_route_witness:
  "getTransformers demoWorld (nextFilePath demoWorld (demoInput ''a.md'') ''html'') = Inr [3]
   \<and> runChild demoWorld 1 (demoFrame ''a.md'' [2] None (2, None)) (demoResult ''html'' ''<p>'' None)
       = bindM (emit (EvGetTransformers ''a.html'')) (\<lambda>_.
         bindM (runPipeline demoWorld 1
                  \<lparr>input = demoChild (demoInput ''a.md'') (demoResult ''html'' ''<p>'' None),
                   originalPipeline = None, pipeline = [3], cacheEntry = None,
                   previousGenerate = Some (2, None)\<rparr>)
           (\<lambda>r. ret (pr_assets r)))
   \<and> snd (runChild demoWorld 1 (demoFrame ''a.md'' [2] None (2, None))
            (demoResult ''html'' ''<p>'' None))
       = [EvGetTransformers ''a.html'', EvRunPipeline [3], EvHook 3 TransformHook]
   \<and> runChild demoWorld 1 (demoFrame ''a.js'' [0, 1] None (0, Some 1))
         (demoResult ''js'' ''y=1'' (Some 10))
       = bindM (runPipeline demoWorld 1
                  \<lparr>input = demoChild (demoInput ''a.js'') (demoResult ''js'' ''y=1'' (Some 10)),
                   originalPipeline = Some [0, 1], pipeline = [1], cacheEntry = None,
                   previousGenerate = Some (0, Some 1)\<rparr>)
           (\<lambda>r. ret (pr_assets r))"
proof -
  have h1: "fst (tryCache demoWorld (demoFrame ''a.md'' [2] None (2, None))
              (createChildAsset demoWorld (fr_input (demoFrame ''a.md'' [2] None (2, None)))
                 (demoResult ''html'' ''<p>'' None))) = Returned None"
    by (simp add: tryCache_def demoFrame_def)
  have gt: "getTransformers demoWorld (nextFilePath demoWorld (demoInput ''a.md'') ''html'')
              = Inr [3]"
    by code_simp
  have nf: "nextFilePath demoWorld (demoInput ''a.md'') ''html'' = ''a.html''"
    by code_simp
  have h2: "r_type (demoResult ''html'' ''<p>'' None)
              \<noteq> fr_inputType (demoFrame ''a.md'' [2] None (2, None)) \<longrightarrow>
            getTransformers demoWorld
              (nextFilePath demoWorld (fr_input (demoFrame ''a.md'' [2] None (2, None)))
                 (r_type (demoResult ''html'' ''<p>'' None))) = Inr [3]"
    using gt by (simp add: demoFrame_def demoResult_def)
  have ty: "r_type (demoResult ''html'' ''<p>'' None)
              \<noteq> fr_inputType (demoFrame ''a.md'' [2] None (2, None))"
    by code_simp
  have ne: "\<not> isEqualPipeline (fr_originalPipeline (demoFrame ''a.md'' [2] None (2, None))) [3]"
    by code_simp
  have 2: "runChild demoWorld 1 (demoFrame ''a.md'' [2] None (2, None))
             (demoResult ''html'' ''<p>'' None)
       = bindM (emit (EvGetTransformers ''a.html'')) (\<lambda>_.
         bindM (runPipeline demoWorld 1
                  \<lparr>input = demoChild (demoInput ''a.md'') (demoResult ''html'' ''<p>'' None),
                   originalPipeline = None, pipeline = [3], cacheEntry = None,
                   previousGenerate = Some (2, None)\<rparr>)
           (\<lambda>r. ret (pr_assets r)))"
    using runChild_route [OF h1 h2, THEN conjunct1, of 1] ty ne nf
    by (simp add: demoFrame_def demoWorld_def demoResult_def)
  have 3: "snd (runChild demoWorld 1 (demoFrame ''a.md'' [2] None (2, None))
            (demoResult ''html'' ''<p>'' None))
       = [EvGetTransformers ''a.html'', EvRunPipeline [3], EvHook 3 TransformHook]"
    by code_simp
  have k1: "fst (tryCache demoWorld (demoFrame ''a.js'' [0, 1] None (0, Some 1))
              (createChildAsset demoWorld (fr_input (demoFrame ''a.js'' [0, 1] None (0, Some 1)))
                 (demoResult ''js'' ''y=1'' (Some 10)))) = Returned None"
    by (simp add: tryCache_def demoFrame_def)
  have same: "r_type (demoResult ''js'' ''y=1'' (Some 10))
                = fr_inputType (demoFrame ''a.js'' [0, 1] None (0, Some 1))"
    by code_simp
  then have k2: "r_type (demoResult ''js'' ''y=1'' (Some 10))
              \<noteq> fr_inputType (demoFrame ''a.js'' [0, 1] None (0, Some 1)) \<longrightarrow>
            getTransformers demoWorld
              (nextFilePath demoWorld (fr_input (demoFrame ''a.js'' [0, 1] None (0, Some 1)))
                 (r_type (demoResult ''js'' ''y=1'' (Some 10)))) = Inr []"
    by simp
  have 4: "runChild demoWorld 1 (demoFrame ''a.js'' [0, 1] None (0, Some 1))
         (demoResult ''js'' ''y=1'' (Some 10))
       = bindM (runPipeline demoWorld 1
                  \<lparr>input = demoChild (demoInput ''a.js'') (demoResult ''js'' ''y=1'' (Some 10)),
                   originalPipeline = Some [0, 1], pipeline = [1], cacheEntry = None,
                   previousGenerate = Some (0, Some 1)\<rparr>)
           (\<lambda>r. ret (pr_assets r))"
    using runChild_route [OF k1 k2, THEN conjunct1, of 1] same
    by (simp add: demoFrame_def demoWorld_def)
  show ?thesis by (intro conjI gt 2 3 4)
qed

text \<open>
  Claim C2 as stated fails for a result that the cache entry serves. The request for
  \<^verbatim>\<open>a.md\<close> finds a stale entry (the hash of the source differs), so the pipeline runs with
  that entry. The markdown transformer's result has type \<^verbatim>\<open>html\<close>, not \<^verbatim>\<open>md\<close>, and the
  pipeline for \<^verbatim>\<open>a.html\<close> is not the markdown pipeline, yet no jump is taken and the
  child is neither finalized nor run further: the turn of the loop makes no call and
  gives the cached asset.
\<close>

theorem cached_child_counterexample:
  "r_type (demoResult ''html'' ''<p>'' None)
     \<noteq> fr_inputType (demoFrame ''a.md'' [2] (Some demoStaleEntry) (2, None))
   \<and> getTransformers demoWorld (nextFilePath demoWorld (demoInput ''a.md'') ''html'') = Inr [3]
   \<and> \<not> isEqualPipeline [2] [3]
   \<and> runChild demoWorld 5 (demoFrame ''a.md'' [2] (Some demoStaleEntry) (2, None))
         (demoResult ''html'' ''<p>'' None) = (Returned [demoCachedHtml], [])
   \<and> fst (transform demoWorld demoOptions 5 (demoRequest ''a.md'')
            [reqCacheKey demoWorld (demoRequest ''a.md'') \<mapsto> demoStaleEntry]) =
       (Returned \<lparr>ce_filePath = ''a.md'', ce_env = ''browser'', ce_hash = ''hxxx'',
                 assets = [demoCachedHtml], initialAssets = None\<rparr>,
        [EvReport ''a.md'', EvCacheGet (reqCacheKey demoWorld (demoRequest ''a.md'')),
         EvGetTransformers ''a.md'', EvRunPipeline [2], EvHook 2 TransformHook,
         EvCommit demoCachedHtml, EvCacheSet (reqCacheKey demoWorld (demoRequest ''a.md''))])"
proof -
  have 1: "r_type (demoResult ''html'' ''<p>'' None)
     \<noteq> fr_inputType (demoFrame ''a.md'' [2] (Some demoStaleEntry) (2, None))"
    by code_simp
  have 2: "getTransformers demoWorld (nextFilePath demoWorld (demoInput ''a.md'') ''html'')
             = Inr [3]"
    by code_simp
  have 3: "\<not> isEqualPipeline [2] [3]"
    by code_simp
  have 4: "runChild demoWorld 5 (demoFrame ''a.md'' [2] (Some demoStaleEntry) (2, None))
         (demoResult ''html'' ''<p>'' None) = (Returned [demoCachedHtml], [])"
    by code_simp
  have 5: "fst (transform demoWorld demoOptions 5 (demoRequest ''a.md'')
            [reqCacheKey demoWorld (demoRequest ''a.md'') \<mapsto> demoStaleEntry]) =
       (Returned \<lparr>ce_filePath = ''a.md'', ce_env = ''browser'', ce_hash = ''hxxx'',
                 assets = [demoCachedHtml], initialAssets = None\<rparr>,
        [EvReport ''a.md'', EvCacheGet (reqCacheKey demoWorld (demoRequest ''a.md'')),
         EvGetTransformers ''a.md'', EvRunPipeline [2], EvHook 2 TransformHook,
         EvCommit demoCachedHtml, EvCacheSet (reqCacheKey demoWorld (demoRequest ''a.md''))])"
    by code_simp
  show ?thesis by (intro conjI 1 2 3 4 5)
qed

subsection \<open>The asset request records the elapsed time\<close>

lemma run_Returned:
  assumes "fst (run rw inp) = Returned as"
  shows "\<exists>cachePath res.
           parcelConfigRequest rw = Inr (Some cachePath)
           \<and> farmRunTransform rw cachePath (optionsRef inp) (AssetRequest.truncate inp) = Inr res
           \<and> as = stampTime (dateNow rw 1 - dateNow rw 0) (fa_assets res)"
  using assms
  by (auto simp: run_def fst_bindM lift_def ret_def throw_def
      split: outcome.splits sum.splits option.splits)

text \<open>
  Claim C10. When \<^verbatim>\<open>run\<close> returns, the list it returns is the list of assets the farm's
  \<^verbatim>\<open>runTransform\<close> handle returned for this request, and every asset of it has
  \<^verbatim>\<open>stats.time\<close> set to the same value: the second reading of the clock, taken when the
  handle has returned, less the first, taken at the start of the request's work (before
  the config request and the transformation).
\<close>

theorem run_stamps_time:
  assumes "fst (run rw inp) = Returned as"
  shows "(\<forall>a\<in>set as. time (a_stats a) = dateNow rw 1 - dateNow rw 0)
         \<and> (\<exists>cachePath res.
               parcelConfigRequest rw = Inr (Some cachePath)
               \<and> farmRunTransform rw cachePath (optionsRef inp) (AssetRequest.truncate inp)
                   = Inr res
               \<and> length as = length (fa_assets res)
               \<and> as = stampTime (dateNow rw 1 - dateNow rw 0) (fa_assets res))"
proof -
  from run_Returned [OF assms] obtain cachePath res where
    r: "parcelConfigRequest rw = Inr (Some cachePath)"
       "farmRunTransform rw cachePath (optionsRef inp) (AssetRequest.truncate inp) = Inr res"
       "as = stampTime (dateNow rw 1 - dateNow rw 0) (fa_assets res)"
    by blast
  have "\<forall>a\<in>set as. time (a_stats a) = dateNow rw 1 - dateNow rw 0"
    by (auto simp: r(3) stampTime_def)
  moreover have "length as = length (fa_assets res)"
    by (simp add: r(3) stampTime_def)
  ultimately show ?thesis using r by blast
qed

text \<open>
  The example: the clock reads 1000 and 1250; both assets leave with the time 250,
  whatever time they came with.
\<close>

theorem run_stamps_time_witness:
  "run demoRunWorld demoRunInput =
     (Returned demoStamped,
      [EvInvalidate (FileUpdate ''a.js''),
       EvInvalidate (FileUpdate ''b.txt''), EvInvalidate (FileDelete ''b.txt''),
       EvRunRequest ''config_request:babel'' ''config_request''
         [FileUpdate ''.babelrc'', FileDelete ''.babelrc'',
          FileUpdate ''preset.js'', FileUpdate ''preset.js''],
       EvRunRequest ''dep_version_request:dep'' ''version_request'' [FileUpdate ''yarn.lock'']])
   \<and> dateNow demoRunWorld 1 - dateNow demoRunWorld 0 = 250
   \<and> list_all (\<lambda>a. time (a_stats a) = 250) demoStamped"
proof -
  have 1: "run demoRunWorld demoRunInput =
     (Returned demoStamped,
      [EvInvalidate (FileUpdate ''a.js''),
       EvInvalidate (FileUpdate ''b.txt''), EvInvalidate (FileDelete ''b.txt''),
       EvRunRequest ''config_request:babel'' ''config_request''
         [FileUpdate ''.babelrc'', FileDelete ''.babelrc'',
          FileUpdate ''preset.js'', FileUpdate ''preset.js''],
       EvRunRequest ''dep_version_request:dep'' ''version_request'' [FileUpdate ''yarn.lock'']])"
    by code_simp
  then have h: "fst (run demoRunWorld demoRunInput) = Returned demoStamped"
    by simp
  have 2: "dateNow demoRunWorld 1 - dateNow demoRunWorld 0 = 250"
    by (simp add: demoRunWorld_def)
  have 3: "list_all (\<lambda>a. time (a_stats a) = 250) demoStamped"
    using run_stamps_time [OF h] 2 by (simp add: list_all_iff)
  show ?thesis by (intro conjI 1 2 3)
qed

end
